theory Spec2Isabelle
  imports Complex_Main
begin

section \<open>JavaScript values\<close>

text \<open>
  A string is the list of the bytes of its UTF-8 form; a surrogate that stands alone is
  written as the three bytes of its code point. The length of a JavaScript string and
  \<open>substring\<close> count UTF-16 code units: one for a character of up to three bytes, two for
  a character of four bytes.
\<close>

definition utf8_width :: "char \<Rightarrow> nat" where
  "utf8_width c =
    (let b = (of_char c :: nat)
     in if b < 0xC0 then 1 else if b < 0xE0 then 2 else if b < 0xF0 then 3 else 4)"

definition utf16_units :: "char \<Rightarrow> nat" where
  "utf16_units c = (if (of_char c :: nat) < 0xF0 then 1 else 2)"

definition utf16_length :: "string \<Rightarrow> nat" where
  "utf16_length s =
    length (filter (\<lambda>c. (of_char c :: nat) < 0x80 \<or> 0xC0 \<le> (of_char c :: nat)) s)
      + length (filter (\<lambda>c. 0xF0 \<le> (of_char c :: nat)) s)"

definition high_surrogate :: "string \<Rightarrow> string" where
  "high_surrogate ch =
    (case ch of
       [b0, b1, b2, b3] \<Rightarrow>
         (let cp = (of_char b0 mod 8) * 262144 + (of_char b1 mod 64) * 4096
                     + (of_char b2 mod 64) * 64 + (of_char b3 mod 64 :: nat);
              hs = 55296 + (cp - 65536) div 1024
          in [CHR 0xED, char_of (128 + (hs div 64) mod 64), char_of (128 + hs mod 64)])
     | _ \<Rightarrow> ch)"

fun utf16_take :: "nat \<Rightarrow> string \<Rightarrow> string" where
  "utf16_take n [] = []"
| "utf16_take n (c # cs) =
     (if n = 0 then []
      else if utf16_units c \<le> n
      then (c # take (utf8_width c - 1) cs)
             @ utf16_take (n - utf16_units c) (drop (utf8_width c - 1) cs)
      else high_surrogate (c # take (utf8_width c - 1) cs))"

text \<open>
  \<open>toUpperCase\<close> and \<open>toLowerCase\<close> convert character by character, by the Unicode tables
  and without regard to the locale. \<open>ascii_letters\<close> is the table for the ASCII letters;
  \<open>upper_special\<close> and \<open>lower_special\<close> list every character outside ASCII whose upper
  (lower) case has an ASCII character, with that upper (lower) case. A character outside
  ASCII that is in neither table is left as it is: JavaScript gives for it a character
  outside ASCII again, and this program compares the converted strings with ASCII words
  only.
\<close>

definition ascii_letters :: "(char \<times> char) list" where
  "ascii_letters = zip ''abcdefghijklmnopqrstuvwxyz'' ''ABCDEFGHIJKLMNOPQRSTUVWXYZ''"

definition toUpperChar :: "char \<Rightarrow> char" where
  "toUpperChar c = (case map_of ascii_letters c of Some u \<Rightarrow> u | None \<Rightarrow> c)"

definition toLowerChar :: "char \<Rightarrow> char" where
  "toLowerChar c = (case map_of (map (\<lambda>(l, u). (u, l)) ascii_letters) c of Some l \<Rightarrow> l | None \<Rightarrow> c)"

text \<open>
  Sharp s; dotless i; n with apostrophe; long s; j with caron; h with line below; t with
  diaeresis; w and y with ring above; a with right half ring; the ligatures ff, fi, fl,
  ffi, ffl, long s t and st.
\<close>

definition upper_special :: "(string \<times> string) list" where
  "upper_special =
    [([CHR 0xC3, CHR 0x9F], ''SS''),
     ([CHR 0xC4, CHR 0xB1], ''I''),
     ([CHR 0xC5, CHR 0x89], [CHR 0xCA, CHR 0xBC, CHR ''N'']),
     ([CHR 0xC5, CHR 0xBF], ''S''),
     ([CHR 0xC7, CHR 0xB0], [CHR ''J'', CHR 0xCC, CHR 0x8C]),
     ([CHR 0xE1, CHR 0xBA, CHR 0x96], [CHR ''H'', CHR 0xCC, CHR 0xB1]),
     ([CHR 0xE1, CHR 0xBA, CHR 0x97], [CHR ''T'', CHR 0xCC, CHR 0x88]),
     ([CHR 0xE1, CHR 0xBA, CHR 0x98], [CHR ''W'', CHR 0xCC, CHR 0x8A]),
     ([CHR 0xE1, CHR 0xBA, CHR 0x99], [CHR ''Y'', CHR 0xCC, CHR 0x8A]),
     ([CHR 0xE1, CHR 0xBA, CHR 0x9A], [CHR ''A'', CHR 0xCA, CHR 0xBE]),
     ([CHR 0xEF, CHR 0xAC, CHR 0x80], ''FF''),
     ([CHR 0xEF, CHR 0xAC, CHR 0x81], ''FI''),
     ([CHR 0xEF, CHR 0xAC, CHR 0x82], ''FL''),
     ([CHR 0xEF, CHR 0xAC, CHR 0x83], ''FFI''),
     ([CHR 0xEF, CHR 0xAC, CHR 0x84], ''FFL''),
     ([CHR 0xEF, CHR 0xAC, CHR 0x85], ''ST''),
     ([CHR 0xEF, CHR 0xAC, CHR 0x86], ''ST'')]"

text \<open>Capital I with dot above; the Kelvin sign.\<close>

definition lower_special :: "(string \<times> string) list" where
  "lower_special =
    [([CHR 0xC4, CHR 0xB0], [CHR ''i'', CHR 0xCC, CHR 0x87]),
     ([CHR 0xE2, CHR 0x84, CHR 0xAA], ''k'')]"

text \<open>
  The entry of the table whose character starts the string, with its replacement and the
  rest of the string.
\<close>

fun special_case :: "(string \<times> string) list \<Rightarrow> string \<Rightarrow> (string \<times> string) option" where
  "special_case [] s = None"
| "special_case ((k, v) # tab) s =
     (if k \<noteq> [] \<and> take (length k) s = k then Some (v, drop (length k) s)
      else special_case tab s)"

function case_convert :: "(string \<times> string) list \<Rightarrow> (char \<Rightarrow> char) \<Rightarrow> string \<Rightarrow> string" where
  "case_convert tab f [] = []"
| "case_convert tab f (c # cs) =
     (case special_case tab (c # cs) of
        None \<Rightarrow> f c # case_convert tab f cs
      | Some (v, rest) \<Rightarrow> v @ case_convert tab f rest)"
  by pat_completeness auto
termination
proof (relation "measure (\<lambda>(tab, f, s). length s)")
  show "wf (measure (\<lambda>(tab, f, s). length s))" by simp
next
  fix tab :: "(string \<times> string) list" and f :: "char \<Rightarrow> char" and c cs
  show "((tab, f, cs), (tab, f, c # cs)) \<in> measure (\<lambda>(tab, f, s). length s)" by simp
next
  fix tab :: "(string \<times> string) list" and f :: "char \<Rightarrow> char" and c cs x2 v rest
  assume a: "special_case tab (c # cs) = Some x2" "(v, rest) = x2"
  have "length r < length s" if "special_case t s = Some (u, r)" for t s u r
    using that
  proof (induction t)
    case Nil
    then show ?case by simp
  next
    case (Cons a t)
    obtain k w where a: "a = (k, w)" by (cases a)
    show ?case
    proof (cases "k \<noteq> [] \<and> take (length k) s = k")
      case True
      then have "s \<noteq> []" by auto
      with True have "length s - length k < length s" by (simp add: diff_less)
      with True Cons.prems a show ?thesis by auto
    next
      case False
      with Cons a show ?thesis by auto
    qed
  qed
  from this [of tab "c # cs" v rest] a
  show "((tab, f, rest), (tab, f, c # cs)) \<in> measure (\<lambda>(tab, f, s). length s)"
    by simp
qed

definition toUpperCase :: "string \<Rightarrow> string" where
  "toUpperCase s = case_convert upper_special toUpperChar s"

definition toLowerCase :: "string \<Rightarrow> string" where
  "toLowerCase s = case_convert lower_special toLowerChar s"

text \<open>\<open>s.includes(sub)\<close>: \<open>sub\<close> occurs in \<open>s\<close> as a contiguous block.\<close>

fun str_includes :: "string \<Rightarrow> string \<Rightarrow> bool" where
  "str_includes [] sub = (sub = [])"
| "str_includes (c # cs) sub = (take (length sub) (c # cs) = sub \<or> str_includes cs sub)"

text \<open>\<open>xs.join(sep)\<close>\<close>

fun join :: "string \<Rightarrow> string list \<Rightarrow> string" where
  "join sep [] = []"
| "join sep [x] = x"
| "join sep (x # y # ys) = x @ sep @ join sep (y # ys)"

definition nl :: string where
  "nl = [CHR 0x0A]"

text \<open>
  The decimal form of a natural number and of an integer, which is what a template literal
  prints for an integer of magnitude below \<open>10^21\<close>.
\<close>

fun digits :: "nat \<Rightarrow> string" where
  "digits n = (if n < 10 then [''0123456789'' ! n]
               else digits (n div 10) @ [''0123456789'' ! (n mod 10)])"

definition int_toString :: "int \<Rightarrow> string" where
  "int_toString i = (if i < 0 then CHR ''-'' # digits (nat (- i)) else digits (nat i))"

text \<open>
  A JavaScript number: a finite value, \<open>NaN\<close> or an infinity. A number is falsy when it is
  zero or \<open>NaN\<close>; \<open>n <= 0\<close> is false for \<open>NaN\<close>.
\<close>

datatype jsnumber = Fin rat | NaN | PosInfinity | NegInfinity

fun number_truthy :: "jsnumber \<Rightarrow> bool" where
  "number_truthy (Fin r) = (r \<noteq> 0)"
| "number_truthy NaN = False"
| "number_truthy PosInfinity = True"
| "number_truthy NegInfinity = True"

fun number_le_zero :: "jsnumber \<Rightarrow> bool" where
  "number_le_zero (Fin r) = (r \<le> 0)"
| "number_le_zero NaN = False"
| "number_le_zero PosInfinity = False"
| "number_le_zero NegInfinity = True"

text \<open>
  What \<open>JSON.parse\<close> returns. A value that may be \<open>undefined\<close> is a \<open>json option\<close>,
  with \<open>None\<close> for \<open>undefined\<close>.
\<close>

datatype json =
    JNull
  | JBool bool
  | JNum jsnumber
  | JStr string
  | JArr "json list"
  | JObj "(string \<times> json) list"

fun truthy :: "json \<Rightarrow> bool" where
  "truthy JNull = False"
| "truthy (JBool b) = b"
| "truthy (JNum n) = number_truthy n"
| "truthy (JStr s) = (s \<noteq> [])"
| "truthy (JArr xs) = True"
| "truthy (JObj kvs) = True"

text \<open>\<open>a || b\<close>, and \<open>a || d\<close> where \<open>d\<close> is a literal (hence defined).\<close>

definition or_else :: "json option \<Rightarrow> json option \<Rightarrow> json option" where
  "or_else a b = (case a of None \<Rightarrow> b | Some v \<Rightarrow> if truthy v then Some v else b)"

definition or_default :: "json option \<Rightarrow> json \<Rightarrow> json" where
  "or_default a d = (case a of None \<Rightarrow> d | Some v \<Rightarrow> if truthy v then v else d)"

datatype exn = TypeError | SyntaxError | JsError string

definition ebind :: "exn + 'a \<Rightarrow> ('a \<Rightarrow> exn + 'b) \<Rightarrow> exn + 'b" where
  "ebind m f = (case m of Inl e \<Rightarrow> Inl e | Inr v \<Rightarrow> f v)"

definition try_catch :: "exn + 'a \<Rightarrow> (exn \<Rightarrow> exn + 'a) \<Rightarrow> exn + 'a" where
  "try_catch body handler = (case body of Inl e \<Rightarrow> handler e | Inr v \<Rightarrow> Inr v)"

text \<open>
  \<open>v.k\<close> for a property name \<open>k\<close> that no built-in prototype defines: reading a property of
  \<open>null\<close> throws, an object gives its own property, any other value gives \<open>undefined\<close>.
\<close>

fun get_prop :: "json \<Rightarrow> string \<Rightarrow> exn + json option" where
  "get_prop JNull k = Inl TypeError"
| "get_prop (JObj kvs) k = Inr (map_of kvs k)"
| "get_prop (JBool b) k = Inr None"
| "get_prop (JNum n) k = Inr None"
| "get_prop (JStr s) k = Inr None"
| "get_prop (JArr xs) k = Inr None"

text \<open>\<open>v.length\<close>\<close>

fun js_length :: "json \<Rightarrow> json option" where
  "js_length (JArr xs) = Some (JNum (Fin (of_nat (length xs))))"
| "js_length (JStr s) = Some (JNum (Fin (of_nat (utf16_length s))))"
| "js_length (JObj kvs) = map_of kvs ''length''"
| "js_length JNull = None"
| "js_length (JBool b) = None"
| "js_length (JNum n) = None"

text \<open>
  Calling a string method on a value: the method exists on strings only, and calling
  \<open>undefined\<close> throws.
\<close>

definition string_method :: "(string \<Rightarrow> 'a) \<Rightarrow> json \<Rightarrow> exn + 'a" where
  "string_method f v = (case v of JStr s \<Rightarrow> Inr (f s) | _ \<Rightarrow> Inl TypeError)"

text \<open>\<open>v.map(f)\<close>: \<open>v\<close> must be an array; the first exception of \<open>f\<close> ends the loop.\<close>

fun map_throwing :: "('a \<Rightarrow> exn + 'b) \<Rightarrow> 'a list \<Rightarrow> exn + 'b list" where
  "map_throwing f [] = Inr []"
| "map_throwing f (x # xs) =
     (case f x of Inl e \<Rightarrow> Inl e
      | Inr y \<Rightarrow> (case map_throwing f xs of Inl e \<Rightarrow> Inl e | Inr ys \<Rightarrow> Inr (y # ys)))"

definition array_map :: "(json \<Rightarrow> exn + 'b) \<Rightarrow> json \<Rightarrow> exn + 'b list" where
  "array_map f v = (case v of JArr xs \<Rightarrow> map_throwing f xs | _ \<Rightarrow> Inl TypeError)"

text \<open>\<open>xs.indexOf(x)\<close>: the first index of \<open>x\<close>, or \<open>-1\<close>.\<close>

fun indexOf :: "'a list \<Rightarrow> 'a \<Rightarrow> int" where
  "indexOf [] x = - 1"
| "indexOf (y # ys) x =
     (if y = x then 0 else (let i = indexOf ys x in if i < 0 then - 1 else i + 1))"

section \<open>types/index.ts\<close>

datatype IssueSeverity = Critical | Error | Warning | Info

datatype ReviewCategory =
  Security | Performance | Maintainability | Best_practices | Bugs | Style | Documentation

datatype ReviewStatus = Success | Failure | Partial

record ReviewRule =
  rule_id :: string
  rule_name :: string
  rule_description :: string
  rule_severity :: IssueSeverity
  rule_category :: ReviewCategory
  rule_enabled :: bool

text \<open>
  A normalized issue. The fields that \<open>parseResults\<close> copies from the parsed JSON with a
  type cast hold whatever value the JSON had.
\<close>

record ReviewIssue =
  ruleId :: json
  severity :: IssueSeverity
  category :: ReviewCategory
  filePath :: json
  line :: "json option"
  message :: "json option"
  suggestion :: "json option"
  impact :: "json option"

record FileDiff =
  filename :: string
  diff_status :: string
  additions :: int
  deletions :: int
  patch :: "string option"

text \<open>\<open>number?: string | number\<close>; a pull request's number is an integer.\<close>

datatype pr_number = NumberString string | NumberInt int

record PRContext =
  title :: "string option"
  description :: "string option"
  number :: "pr_number option"
  branch :: "string option"
  author :: "string option"
  changedFiles :: "string list option"
  baseBranch :: "string option"
  fileDiffs :: "FileDiff list option"

text \<open>Every field of \<open>ReviewConfig\<close> is optional: \<open>None\<close> is \<open>undefined\<close>.\<close>

record ReviewConfig =
  maxFiles :: "jsnumber option"
  maxBudgetUsd :: "jsnumber option"
  model :: "string option"
  excludePatterns :: "string list option"
  includePatterns :: "string list option"
  cwd :: "string option"
  verbose :: "bool option"
  rules :: "ReviewRule list option"
  severityThreshold :: "IssueSeverity option"
  prContext :: "PRContext option"

text \<open>
  A \<open>Partial<ReviewConfig>\<close> as the caller writes it: a key may be missing, present with the
  value \<open>undefined\<close> (as \<open>cli.ts\<close> writes \<open>verbose\<close>), or present with a value. The object
  spread \<open>{...DEFAULT_CONFIG, ...userConfig}\<close> copies every key that is present, also one
  whose value is \<open>undefined\<close>.
\<close>

datatype 'a field = Absent | Undefined | Given 'a

record PartialReviewConfig =
  user_maxFiles :: "jsnumber field"
  user_maxBudgetUsd :: "jsnumber field"
  user_model :: "string field"
  user_excludePatterns :: "string list field"
  user_includePatterns :: "string list field"
  user_cwd :: "string field"
  user_verbose :: "bool field"
  user_rules :: "ReviewRule list field"
  user_severityThreshold :: "IssueSeverity field"
  user_prContext :: "PRContext field"

fun spread :: "'a option \<Rightarrow> 'a field \<Rightarrow> 'a option" where
  "spread d Absent = d"
| "spread d Undefined = None"
| "spread d (Given v) = Some v"

section \<open>config/default-rules.ts\<close>

definition DEFAULT_RULES :: "ReviewRule list" where
  "DEFAULT_RULES =
    [\<lparr>rule_id = ''security-no-hardcoded-secrets'',
      rule_name = ''No Hardcoded Secrets'',
      rule_description = ''Detect hardcoded API keys, passwords, tokens, or secrets'',
      rule_severity = Critical,
      rule_category = Security,
      rule_enabled = True\<rparr>,
     \<lparr>rule_id = ''security-sql-injection'',
      rule_name = ''SQL Injection Prevention'',
      rule_description = ''Check for potential SQL injection vulnerabilities'',
      rule_severity = Critical,
      rule_category = Security,
      rule_enabled = True\<rparr>,
     \<lparr>rule_id = ''security-xss'',
      rule_name = ''XSS Prevention'',
      rule_description = ''Check for potential Cross-Site Scripting vulnerabilities'',
      rule_severity = Critical,
      rule_category = Security,
      rule_enabled = True\<rparr>,
     \<lparr>rule_id = ''security-command-injection'',
      rule_name = ''Command Injection Prevention'',
      rule_description = ''Check for potential command injection vulnerabilities'',
      rule_severity = Critical,
      rule_category = Security,
      rule_enabled = True\<rparr>,
     \<lparr>rule_id = ''performance-inefficient-loops'',
      rule_name = ''Inefficient Loops'',
      rule_description = ''Detect inefficient loop patterns and nested iterations'',
      rule_severity = Warning,
      rule_category = Performance,
      rule_enabled = True\<rparr>,
     \<lparr>rule_id = ''performance-memory-leaks'',
      rule_name = ''Potential Memory Leaks'',
      rule_description = ''Identify patterns that could lead to memory leaks'',
      rule_severity = Error,
      rule_category = Performance,
      rule_enabled = True\<rparr>,
     \<lparr>rule_id = ''performance-unnecessary-computations'',
      rule_name = ''Unnecessary Computations'',
      rule_description = ''Flag redundant or repeated computations that can be optimized'',
      rule_severity = Info,
      rule_category = Performance,
      rule_enabled = True\<rparr>,
     \<lparr>rule_id = ''bugs-null-reference'',
      rule_name = ''Null Reference Errors'',
      rule_description = ''Detect potential null or undefined reference errors'',
      rule_severity = Error,
      rule_category = Bugs,
      rule_enabled = True\<rparr>,
     \<lparr>rule_id = ''bugs-type-errors'',
      rule_name = ''Type Errors'',
      rule_description = ''Identify potential type mismatches and coercion issues'',
      rule_severity = Error,
      rule_category = Bugs,
      rule_enabled = True\<rparr>,
     \<lparr>rule_id = ''bugs-logic-errors'',
      rule_name = ''Logic Errors'',
      rule_description = ''Detect logical errors and incorrect conditional statements'',
      rule_severity = Error,
      rule_category = Bugs,
      rule_enabled = True\<rparr>,
     \<lparr>rule_id = ''best-practices-error-handling'',
      rule_name = ''Proper Error Handling'',
      rule_description = ''Ensure proper error handling and exception management'',
      rule_severity = Warning,
      rule_category = Best_practices,
      rule_enabled = True\<rparr>,
     \<lparr>rule_id = ''best-practices-async-await'',
      rule_name = ''Async/Await Usage'',
      rule_description = ''Check for proper async/await patterns and promise handling'',
      rule_severity = Warning,
      rule_category = Best_practices,
      rule_enabled = True\<rparr>,
     \<lparr>rule_id = ''best-practices-immutability'',
      rule_name = ''Immutability'',
      rule_description = ''Prefer immutable patterns and avoid direct state mutations'',
      rule_severity = Info,
      rule_category = Best_practices,
      rule_enabled = True\<rparr>,
     \<lparr>rule_id = ''maintainability-complexity'',
      rule_name = ''Code Complexity'',
      rule_description = ''Flag functions with high cyclomatic complexity'',
      rule_severity = Warning,
      rule_category = Maintainability,
      rule_enabled = True\<rparr>,
     \<lparr>rule_id = ''maintainability-function-length'',
      rule_name = ''Function Length'',
      rule_description = ''Identify excessively long functions that should be refactored'',
      rule_severity = Info,
      rule_category = Maintainability,
      rule_enabled = True\<rparr>,
     \<lparr>rule_id = ''maintainability-duplication'',
      rule_name = ''Code Duplication'',
      rule_description = ''Detect duplicated code that should be extracted'',
      rule_severity = Warning,
      rule_category = Maintainability,
      rule_enabled = True\<rparr>,
     \<lparr>rule_id = ''documentation-missing-comments'',
      rule_name = ''Missing Documentation'',
      rule_description = ''Flag complex functions lacking documentation'',
      rule_severity = Info,
      rule_category = Documentation,
      rule_enabled = True\<rparr>,
     \<lparr>rule_id = ''documentation-outdated-comments'',
      rule_name = ''Outdated Comments'',
      rule_description = ''Identify comments that may be outdated or misleading'',
      rule_severity = Info,
      rule_category = Documentation,
      rule_enabled = True\<rparr>,
     \<lparr>rule_id = ''style-naming-conventions'',
      rule_name = ''Naming Conventions'',
      rule_description = ''Ensure consistent naming conventions'',
      rule_severity = Info,
      rule_category = Style,
      rule_enabled = False\<rparr>,
     \<lparr>rule_id = ''style-code-formatting'',
      rule_name = ''Code Formatting'',
      rule_description = ''Check for consistent code formatting'',
      rule_severity = Info,
      rule_category = Style,
      rule_enabled = False\<rparr>]"

definition getEnabledRules :: "ReviewRule list" where
  "getEnabledRules = filter rule_enabled DEFAULT_RULES"

section \<open>config/index.ts\<close>

text \<open>
  What the module reads from the process. \<open>parsed_MAX_FILES_PER_REVIEW\<close> is the value of
  \<open>Number.parseInt(process.env.MAX_FILES_PER_REVIEW || '50', 10)\<close> and
  \<open>parsed_MAX_BUDGET_USD\<close> the value of \<open>Number.parseFloat(process.env.MAX_BUDGET_USD || '5.0')\<close>.
\<close>

record process =
  parsed_MAX_FILES_PER_REVIEW :: jsnumber
  parsed_MAX_BUDGET_USD :: jsnumber
  env_MODEL :: "string option"
  env_LOG_LEVEL :: "string option"
  env_ANTHROPIC_API_KEY :: "string option"
  process_cwd :: string

definition DEFAULT_excludePatterns :: "string list" where
  "DEFAULT_excludePatterns =
    [''node_modules/**'', ''dist/**'', ''build/**'', ''*.min.js'', ''*.bundle.js'',
     ''coverage/**'', ''.git/**'', ''*.log'']"

definition DEFAULT_CONFIG :: "process \<Rightarrow> ReviewConfig" where
  "DEFAULT_CONFIG p =
    \<lparr>maxFiles = Some (parsed_MAX_FILES_PER_REVIEW p),
     maxBudgetUsd = Some (parsed_MAX_BUDGET_USD p),
     model = Some (case env_MODEL p of None \<Rightarrow> ''claude-sonnet-4.5-20250929''
                   | Some m \<Rightarrow> if m = [] then ''claude-sonnet-4.5-20250929'' else m),
     excludePatterns = Some DEFAULT_excludePatterns,
     includePatterns = Some [''**/*.ts'', ''**/*.js'', ''**/*.tsx'', ''**/*.jsx''],
     cwd = Some (process_cwd p),
     verbose = Some (env_LOG_LEVEL p = Some ''debug''),
     rules = None,
     severityThreshold = Some Info,
     prContext = None\<rparr>"

text \<open>
  A JavaScript \<open>Map\<close> keeps its entries in insertion order; \<open>set\<close> on a key that is there
  replaces the value in place, \<open>set\<close> on a new key appends. \<open>new Map(entries)\<close> sets the
  entries one after the other.
\<close>

fun map_set :: "('k \<times> 'v) list \<Rightarrow> 'k \<Rightarrow> 'v \<Rightarrow> ('k \<times> 'v) list" where
  "map_set [] k v = [(k, v)]"
| "map_set ((k', v') # m) k v =
     (if k' = k then (k, v) # m else (k', v') # map_set m k v)"

definition new_Map :: "('k \<times> 'v) list \<Rightarrow> ('k \<times> 'v) list" where
  "new_Map entries = foldl (\<lambda>m (k, v). map_set m k v) [] entries"

definition map_values :: "('k \<times> 'v) list \<Rightarrow> 'v list" where
  "map_values m = map snd m"

definition mergeRules :: "ReviewRule list \<Rightarrow> ReviewRule list \<Rightarrow> ReviewRule list" where
  "mergeRules defaultRules userRules =
    (let rulesMap = new_Map (map (\<lambda>rule. (rule_id rule, rule)) defaultRules);
         rulesMap = foldl (\<lambda>m rule. map_set m (rule_id rule) rule) rulesMap userRules
     in filter rule_enabled (map_values rulesMap))"

definition buildConfig :: "process \<Rightarrow> PartialReviewConfig \<Rightarrow> ReviewConfig" where
  "buildConfig p userConfig =
    (let d = DEFAULT_CONFIG p;
         config =
           \<lparr>maxFiles = spread (maxFiles d) (user_maxFiles userConfig),
            maxBudgetUsd = spread (maxBudgetUsd d) (user_maxBudgetUsd userConfig),
            model = spread (model d) (user_model userConfig),
            excludePatterns = spread (excludePatterns d) (user_excludePatterns userConfig),
            includePatterns = spread (includePatterns d) (user_includePatterns userConfig),
            cwd = spread (cwd d) (user_cwd userConfig),
            verbose = spread (verbose d) (user_verbose userConfig),
            rules = spread (rules d) (user_rules userConfig),
            severityThreshold = spread (severityThreshold d) (user_severityThreshold userConfig),
            prContext = spread (prContext d) (user_prContext userConfig)\<rparr>;
         config =
           (case user_rules userConfig of
              Given userRules \<Rightarrow> config\<lparr>rules := Some (mergeRules DEFAULT_RULES userRules)\<rparr>
            | _ \<Rightarrow> config\<lparr>rules := Some getEnabledRules\<rparr>);
         config =
           (case user_excludePatterns userConfig of
              Given userPatterns \<Rightarrow>
                config\<lparr>excludePatterns := Some (DEFAULT_excludePatterns @ userPatterns)\<rparr>
            | _ \<Rightarrow> config)
     in config)"

text \<open>\<open>config.maxFiles && config.maxFiles <= 0\<close>: a number that is \<open>undefined\<close>, zero or \<open>NaN\<close>
  is falsy, and the comparison is not evaluated.\<close>

definition validateConfig :: "process \<Rightarrow> ReviewConfig \<Rightarrow> exn + unit" where
  "validateConfig p config =
    (if (case maxFiles config of None \<Rightarrow> False
         | Some n \<Rightarrow> number_truthy n \<and> number_le_zero n)
     then Inl (JsError ''maxFiles must be greater than 0'')
     else if (case maxBudgetUsd config of None \<Rightarrow> False
              | Some n \<Rightarrow> number_truthy n \<and> number_le_zero n)
     then Inl (JsError ''maxBudgetUsd must be greater than 0'')
     else if (case env_ANTHROPIC_API_KEY p of None \<Rightarrow> True | Some k \<Rightarrow> k = [])
     then Inl (JsError ''ANTHROPIC_API_KEY environment variable is required'')
     else Inr ())"

section \<open>agents/code-reviewer.ts\<close>

record CodeReviewAgent =
  config :: ReviewConfig
  sessionId :: "string option"

text \<open>The constructor: an exception of \<open>validateConfig\<close> leaves no agent.\<close>

definition new_CodeReviewAgent :: "process \<Rightarrow> PartialReviewConfig \<Rightarrow> exn + CodeReviewAgent" where
  "new_CodeReviewAgent p userConfig =
    (let c = buildConfig p userConfig
     in ebind (validateConfig p c) (\<lambda>_. Inr \<lparr>config = c, sessionId = None\<rparr>))"

subsection \<open>Classification\<close>

definition mapSeverity :: "string \<Rightarrow> IssueSeverity" where
  "mapSeverity severity' =
    (let s = toUpperCase severity' in
     if s = ''HIGH'' \<or> s = ''CRITICAL'' then Critical
     else if s = ''MEDIUM'' \<or> s = ''ERROR'' then Error
     else if s = ''LOW'' \<or> s = ''WARNING'' then Warning
     else Info)"

definition mapCategory :: "string \<Rightarrow> ReviewCategory" where
  "mapCategory category' =
    (if category' = [] then Best_practices
     else (let cat = toLowerCase category' in
       if str_includes cat ''security'' then Security
       else if str_includes cat ''performance'' then Performance
       else if str_includes cat ''bug'' then Bugs
       else if str_includes cat ''maintain'' then Maintainability
       else if str_includes cat ''doc'' then Documentation
       else if str_includes cat ''style'' then Style
       else Best_practices))"

subsection \<open>Aggregation\<close>

definition severityLevels :: "IssueSeverity list" where
  "severityLevels = [Info, Warning, Error, Critical]"

definition filterIssuesBySeverity :: "CodeReviewAgent \<Rightarrow> ReviewIssue list \<Rightarrow> ReviewIssue list" where
  "filterIssuesBySeverity this issues =
    (case severityThreshold (config this) of
       None \<Rightarrow> issues
     | Some threshold \<Rightarrow>
         (let thresholdIndex = indexOf severityLevels threshold
          in filter (\<lambda>issue. indexOf severityLevels (severity issue) \<ge> thresholdIndex) issues))"

definition determineStatus :: "ReviewIssue list \<Rightarrow> ReviewStatus" where
  "determineStatus issues =
    (let hasCritical = list_ex (\<lambda>i. severity i = Critical) issues;
         hasErrors = list_ex (\<lambda>i. severity i = Error) issues
     in if hasCritical then Failure else if hasErrors then Partial else Success)"

record SeverityCounts =
  critical :: nat
  error :: nat
  warning :: nat
  info :: nat

definition countBySeverity :: "ReviewIssue list \<Rightarrow> SeverityCounts" where
  "countBySeverity issues =
    \<lparr>critical = length (filter (\<lambda>i. severity i = Critical) issues),
     error = length (filter (\<lambda>i. severity i = Error) issues),
     warning = length (filter (\<lambda>i. severity i = Warning) issues),
     info = length (filter (\<lambda>i. severity i = Info) issues)\<rparr>"

definition countByCategory :: "ReviewIssue list \<Rightarrow> (ReviewCategory \<rightharpoonup> nat)" where
  "countByCategory issues =
    foldl (\<lambda>counts issue.
             counts(category issue \<mapsto>
               (case counts (category issue) of None \<Rightarrow> 0 | Some n \<Rightarrow> n) + 1))
          [Security \<mapsto> 0, Performance \<mapsto> 0, Bugs \<mapsto> 0, Best_practices \<mapsto> 0,
           Maintainability \<mapsto> 0, Documentation \<mapsto> 0, Style \<mapsto> 0]
          issues"

text \<open>
  \<open>buildSummary\<close> prints \<open>prIntent\<close> and \<open>filesReviewed.length\<close> in a template literal;
  \<open>ToString\<close> is the conversion of the JavaScript runtime, which throws on an object
  that cannot be converted.
\<close>

definition buildSummary ::
  "(json option \<Rightarrow> exn + string) \<Rightarrow> ReviewIssue list \<Rightarrow> json \<Rightarrow> json option \<Rightarrow> exn + string" where
  "buildSummary ToString issues filesReviewed prIntent =
    (let criticalCount = length (filter (\<lambda>i. severity i = Critical) issues);
         errorCount = length (filter (\<lambda>i. severity i = Error) issues);
         warningCount = length (filter (\<lambda>i. severity i = Warning) issues);
         summary = []
     in ebind (case prIntent of
                 None \<Rightarrow> Inr summary
               | Some v \<Rightarrow>
                   if truthy v
                   then ebind (ToString prIntent) (\<lambda>s. Inr (summary @ ''PR Intent: '' @ s @ nl @ nl))
                   else Inr summary) (\<lambda>summary.
        ebind (ToString (js_length filesReviewed)) (\<lambda>n.
        let summary = summary @ ''Reviewed '' @ n @ '' file(s). '';
            summary = summary @ ''Found '' @ digits (length issues) @ '' issue(s): '';
            summary = summary @ digits criticalCount @ '' critical, '' @ digits errorCount
                        @ '' errors, '' @ digits warningCount @ '' warnings.''
        in Inr summary)))"

subsection \<open>Result normalization\<close>

record ParsedResults =
  parsed_summary :: "json option"
  parsed_prIntent :: "json option"
  parsed_impactAnalysis :: "json option"
  parsed_issues :: "ReviewIssue list"
  parsed_filesReviewed :: json
  parsed_edgeCases :: "json option"
  parsed_missingTests :: "json option"
  parsed_missingDocumentation :: "json option"
  parsed_positives :: "json option"
  parsed_recommendations :: "json option"

text \<open>
  \<open>resultText.match(/\{[\s\S]*\}/)\<close>: the match starts at the first \<open>{\<close> and, the star
  being greedy, ends at the last \<open>}\<close> after it; there is no match when no \<open>}\<close> follows
  the first \<open>{\<close>.
\<close>

definition jsonMatch :: "string \<Rightarrow> string option" where
  "jsonMatch resultText =
    (let fromBrace = dropWhile (\<lambda>c. c \<noteq> CHR ''{'') resultText;
         span = rev (dropWhile (\<lambda>c. c \<noteq> CHR ''}'') (rev fromBrace))
     in if span = [] then None else Some span)"

text \<open>The function given to \<open>map\<close> in \<open>parseResults\<close>.\<close>

definition normalizeIssue :: "json \<Rightarrow> exn + ReviewIssue" where
  "normalizeIssue issue =
    ebind (get_prop issue ''ruleId'') (\<lambda>i_ruleId.
    ebind (get_prop issue ''severity'') (\<lambda>i_severity.
    ebind (string_method mapSeverity (or_default i_severity (JStr ''INFO''))) (\<lambda>sev.
    ebind (get_prop issue ''category'') (\<lambda>i_category.
    ebind (string_method mapCategory (or_default i_category (JStr []))) (\<lambda>cat.
    ebind (get_prop issue ''file'') (\<lambda>i_file.
    ebind (get_prop issue ''filePath'') (\<lambda>i_filePath.
    ebind (get_prop issue ''line'') (\<lambda>i_line.
    ebind (get_prop issue ''description'') (\<lambda>i_description.
    ebind (get_prop issue ''message'') (\<lambda>i_message.
    ebind (get_prop issue ''recommendation'') (\<lambda>i_recommendation.
    ebind (get_prop issue ''suggestion'') (\<lambda>i_suggestion.
    ebind (get_prop issue ''impact'') (\<lambda>i_impact.
      Inr \<lparr>ruleId = or_default i_ruleId (JStr ''general''),
           severity = sev,
           category = cat,
           filePath = or_default (or_else i_file i_filePath) (JStr ''unknown''),
           line = i_line,
           message = or_else i_description i_message,
           suggestion = or_else i_recommendation i_suggestion,
           impact = i_impact\<rparr>)))))))))))))"

definition emptyResults :: ParsedResults where
  "emptyResults =
    \<lparr>parsed_summary = None, parsed_prIntent = None, parsed_impactAnalysis = None,
     parsed_issues = [], parsed_filesReviewed = JArr [],
     parsed_edgeCases = None, parsed_missingTests = None,
     parsed_missingDocumentation = None, parsed_positives = None,
     parsed_recommendations = None\<rparr>"

text \<open>
  The body of the \<open>try\<close> block: \<open>Inr None\<close> when it ends without a \<open>return\<close>.
  \<open>JSON_parse\<close> is the parser of the runtime, \<open>None\<close> when it throws a \<open>SyntaxError\<close>.
\<close>

definition parseResults_try :: "(string \<Rightarrow> json option) \<Rightarrow> string \<Rightarrow> exn + ParsedResults option" where
  "parseResults_try JSON_parse resultText =
    (case jsonMatch resultText of
       None \<Rightarrow> Inr None
     | Some m \<Rightarrow>
        ebind (case JSON_parse m of None \<Rightarrow> Inl SyntaxError | Some v \<Rightarrow> Inr v) (\<lambda>parsed.
        ebind (get_prop parsed ''issues'') (\<lambda>p_issues.
        ebind (array_map normalizeIssue (or_default p_issues (JArr []))) (\<lambda>issues.
        ebind (get_prop parsed ''summary'') (\<lambda>p_summary.
        ebind (get_prop parsed ''prIntent'') (\<lambda>p_prIntent.
        ebind (get_prop parsed ''impactAnalysis'') (\<lambda>p_impactAnalysis.
        ebind (get_prop parsed ''filesReviewed'') (\<lambda>p_filesReviewed.
        ebind (get_prop parsed ''edgeCases'') (\<lambda>p_edgeCases.
        ebind (get_prop parsed ''missingTests'') (\<lambda>p_missingTests.
        ebind (get_prop parsed ''missingDocumentation'') (\<lambda>p_missingDocumentation.
        ebind (get_prop parsed ''positiveFindings'') (\<lambda>p_positiveFindings.
        ebind (get_prop parsed ''positives'') (\<lambda>p_positives.
        ebind (get_prop parsed ''recommendations'') (\<lambda>p_recommendations.
          Inr (Some
            \<lparr>parsed_summary = p_summary,
             parsed_prIntent = p_prIntent,
             parsed_impactAnalysis = p_impactAnalysis,
             parsed_issues = issues,
             parsed_filesReviewed = or_default p_filesReviewed (JArr []),
             parsed_edgeCases = p_edgeCases,
             parsed_missingTests = p_missingTests,
             parsed_missingDocumentation = p_missingDocumentation,
             parsed_positives = or_else p_positiveFindings p_positives,
             parsed_recommendations = p_recommendations\<rparr>)))))))))))))))"

text \<open>\<open>logger.warn\<close> writes to the console and returns.\<close>

definition logger_warn :: "string \<Rightarrow> exn + unit" where
  "logger_warn msg = Inr ()"

definition parseResults :: "(string \<Rightarrow> json option) \<Rightarrow> string \<Rightarrow> exn + ParsedResults" where
  "parseResults JSON_parse resultText =
    ebind (try_catch (parseResults_try JSON_parse resultText)
             (\<lambda>e. ebind (logger_warn ''Failed to parse JSON, returning empty results'')
                          (\<lambda>_. Inr None)))
      (\<lambda>returned. case returned of Some r \<Rightarrow> Inr r | None \<Rightarrow> Inr emptyResults)"

subsection \<open>The prompt\<close>

definition arrow :: string where
  "arrow = [CHR 0xE2, CHR 0x86, CHR 0x92]"

definition pr_number_truthy :: "pr_number \<Rightarrow> bool" where
  "pr_number_truthy n = (case n of NumberString s \<Rightarrow> s \<noteq> [] | NumberInt i \<Rightarrow> i \<noteq> 0)"

definition pr_number_toString :: "pr_number \<Rightarrow> string" where
  "pr_number_toString n = (case n of NumberString s \<Rightarrow> s | NumberInt i \<Rightarrow> int_toString i)"

text \<open>The body of the loop over \<open>pr.fileDiffs.slice(0, 15)\<close>.\<close>

definition buildPrompt_diff :: "string \<Rightarrow> FileDiff \<Rightarrow> string" where
  "buildPrompt_diff prompt diff =
    (let prompt = prompt @ nl @ ''### '' @ filename diff @ '' ('' @ diff_status diff @ '')'' @ nl;
         prompt = prompt @ ''+'' @ int_toString (additions diff) @ '' -''
                    @ int_toString (deletions diff) @ '' lines'' @ nl
     in case patch diff of
          None \<Rightarrow> prompt
        | Some p \<Rightarrow>
            if p = [] then prompt
            else (let prompt = prompt @ ''```diff'' @ nl;
                      prompt = prompt @ utf16_take 2000 p;
                      prompt = (if utf16_length p > 2000
                                then prompt @ nl @ ''... (diff truncated, use Read tool to see full file)''
                                else prompt)
                  in prompt @ nl @ ''```'' @ nl))"

text \<open>The block \<open>if (this.config.prContext) { ... }\<close> of \<open>buildPrompt\<close>.\<close>

definition buildPrompt_prContext :: "string \<Rightarrow> PRContext \<Rightarrow> string" where
  "buildPrompt_prContext prompt pr =
    (let prompt = prompt @ nl @ nl @ ''## Pull Request Context'' @ nl;
         prompt = (case title pr of None \<Rightarrow> prompt
                   | Some t \<Rightarrow> if t = [] then prompt else prompt @ ''**Title**: '' @ t @ nl);
         prompt = (case description pr of None \<Rightarrow> prompt
                   | Some d \<Rightarrow> if d = [] then prompt else prompt @ ''**Description**: '' @ d @ nl);
         prompt = (case number pr of None \<Rightarrow> prompt
                   | Some n \<Rightarrow> if pr_number_truthy n
                              then prompt @ ''**PR #**: '' @ pr_number_toString n @ nl else prompt);
         prompt = (case author pr of None \<Rightarrow> prompt
                   | Some a \<Rightarrow> if a = [] then prompt else prompt @ ''**Author**: '' @ a @ nl);
         prompt = (case (branch pr, baseBranch pr) of
                     (Some b, Some bb) \<Rightarrow>
                       if b \<noteq> [] \<and> bb \<noteq> []
                       then prompt @ ''**Branch**: '' @ b @ '' '' @ arrow @ '' '' @ bb @ nl
                       else prompt
                   | _ \<Rightarrow> prompt);
         changed = (case changedFiles pr of None \<Rightarrow> prompt
                    | Some fs \<Rightarrow> prompt @ nl @ ''**Changed Files**: '' @ join '', '' fs @ nl);
         prompt = (case fileDiffs pr of
                     None \<Rightarrow> changed
                   | Some ds \<Rightarrow>
                       if length ds > 0
                       then (let prompt = prompt @ nl @ ''**Changes Made** (''
                                            @ digits (length ds) @ '' files):'' @ nl;
                                 prompt = foldl buildPrompt_diff prompt (take 15 ds)
                             in if length ds > 15
                                then prompt @ nl @ ''... and '' @ digits (length ds - 15)
                                       @ '' more files (use Glob/Read to explore)'' @ nl
                                else prompt)
                       else changed);
         prompt = prompt @ nl @ ''**Your Task**: Review the diffs above. Understand what this PR is trying to achieve, verify it works correctly, and check for:'' @ nl;
         prompt = prompt @ ''- Security vulnerabilities in the changed lines'' @ nl;
         prompt = prompt @ ''- Bugs or logic errors in the modifications'' @ nl;
         prompt = prompt @ ''- Impact on files that import/use the changed code'' @ nl;
         prompt = prompt @ ''- Missing tests for the new/changed functionality'' @ nl;
         prompt = prompt @ ''- Edge cases not handled by the changes'' @ nl @ nl
     in prompt)"

definition severity_string :: "IssueSeverity \<Rightarrow> string" where
  "severity_string s =
    (case s of Critical \<Rightarrow> ''critical'' | Error \<Rightarrow> ''error''
     | Warning \<Rightarrow> ''warning'' | Info \<Rightarrow> ''info'')"

definition reviewTask_head :: string where
  "reviewTask_head =
     nl @ ''## Review Task'' @ nl @ nl @ ''Perform a comprehensive code review of: ''"

definition reviewTask_focus :: string where
  "reviewTask_focus =
     nl @ nl @ ''Focus on:'' @ nl @
     ''1. Security vulnerabilities (SQL injection, XSS, SSRF, authorization bypasses, hardcoded secrets)'' @
     nl @ ''2. Potential bugs (null references, type errors, logic errors, race conditions)'' @
     nl @ ''3. Performance issues (inefficient loops, memory leaks, N+1 queries)'' @ nl @
     ''4. Missing error handling and edge cases'' @ nl @
     ''5. Code quality and best practices'' @ nl @ nl"

definition reviewTask_explore :: string where
  "reviewTask_explore =
     nl @ nl @ ''Use Glob and Read tools to explore the codebase. Review up to ''"

definition reviewTask_format :: string where
  "reviewTask_format =
     '' files.'' @ nl @ nl @ ''Provide findings in JSON format:'' @ nl @ ''```json'' @ nl @
     ''{'' @ nl @ ''  \"prIntent\": \"What this PR aims to achieve (if applicable)\",'' @ nl @
     ''  \"summary\": \"Overall assessment\",'' @ nl @ ''  \"impactAnalysis\": {'' @ nl @
     ''    \"breakingChanges\": [],'' @ nl @ ''    \"affectedFiles\": [],'' @ nl @
     ''    \"integrationImpact\": \"description\",'' @ nl @
     ''    \"performanceImpact\": \"description\",'' @ nl @
     ''    \"securityImpact\": \"description\"'' @ nl @ ''  },'' @ nl @ ''  \"issues\": ['' @
     nl @ ''    {'' @ nl @ ''      \"severity\": \"HIGH|MEDIUM|LOW|INFO\",'' @ nl @
     ''      \"category\": \"Security|Performance|Bug|Code Quality\",'' @ nl @
     ''      \"file\": \"path/to/file.ts\",'' @ nl @ ''      \"line\": 42,'' @ nl @
     ''      \"description\": \"Issue description\",'' @ nl @
     ''      \"recommendation\": \"How to fix\"'' @ nl @ ''    }'' @ nl @ ''  ],'' @ nl @
     ''  \"edgeCases\": [{\"scenario\": \"edge case\", \"handled\": false, \"recommendation\": \"fix\"}],'' @
     nl @ ''  \"missingTests\": [\"test scenarios needed\"],'' @ nl @
     ''  \"missingDocumentation\": [\"docs to add\"],'' @ nl @
     ''  \"positives\": [\"good practices found\"],'' @ nl @
     ''  \"recommendations\": [\"prioritized improvements\"],'' @ nl @
     ''  \"filesReviewed\": [\"files\", \"reviewed\"]'' @ nl @ ''}'' @ nl @ ''```'' @ nl @ nl @
     ''Begin the review now.''"


text \<open>
  \<open>Number_toString\<close> is the number-to-string conversion of the runtime, used for
  \<open>this.config.maxFiles\<close>.
\<close>

definition buildPrompt :: "(jsnumber \<Rightarrow> string) \<Rightarrow> CodeReviewAgent \<Rightarrow> string \<Rightarrow> string" where
  "buildPrompt Number_toString this target =
    (let prompt = ''You are an expert code reviewer. '';
         prompt = (case prContext (config this) of
                     None \<Rightarrow> prompt
                   | Some pr \<Rightarrow> buildPrompt_prContext prompt pr);
         rules' = (case rules (config this) of None \<Rightarrow> [] | Some rs \<Rightarrow> rs);
         enabledRules = filter rule_enabled rules'
     in prompt @ reviewTask_head @ target @ reviewTask_focus
          @ (if length enabledRules > 0
             then nl @ ''Apply these rules:'' @ nl
                    @ join nl (map (\<lambda>r. ''- ['' @ toUpperCase (severity_string (rule_severity r))
                                         @ ''] '' @ rule_name r @ '': '' @ rule_description r)
                                   enabledRules)
             else [])
          @ nl @ nl
          @ (case prContext (config this) of
               None \<Rightarrow> []
             | Some pr \<Rightarrow>
                 (case changedFiles pr of
                    None \<Rightarrow> []
                  | Some fs \<Rightarrow> nl @ ''**Priority**: Focus on changed files: '' @ join '', '' fs
                              @ '', but also analyze their impact on the project.''))
          @ reviewTask_explore
          @ (case maxFiles (config this) of
               None \<Rightarrow> ''30''
             | Some n \<Rightarrow> if number_truthy n then Number_toString n else ''30'')
          @ reviewTask_format)"

record Options =
  allowedTools :: "string list"
  permissionMode :: string
  allowDangerouslySkipPermissions :: bool
  options_model :: "string option"
  options_maxBudgetUsd :: "jsnumber option"
  options_cwd :: "string option"

definition buildOptions :: "CodeReviewAgent \<Rightarrow> Options" where
  "buildOptions this =
    \<lparr>allowedTools = [''Read'', ''Glob'', ''Grep''],
     permissionMode = ''bypassPermissions'',
     allowDangerouslySkipPermissions = True,
     options_model = model (config this),
     options_maxBudgetUsd = maxBudgetUsd (config this),
     options_cwd = cwd (config this)\<rparr>"

subsection \<open>The review\<close>

datatype SDKMessage =
    SystemMessage (session_id: "string option")
  | ResultMessage (result: "string option") (total_cost_usd: "jsnumber option")
      (duration_ms: "jsnumber option")
  | OtherMessage

record ReviewStats =
  totalFiles :: "json option"
  totalIssues :: nat
  issuesBySeverity :: SeverityCounts
  issuesByCategory :: "ReviewCategory \<rightharpoonup> nat"
  totalCostUsd :: jsnumber
  durationMs :: jsnumber

record ReviewMetadata =
  startTime :: string
  endTime :: string
  meta_model :: string
  meta_sessionId :: string
  meta_config :: ReviewConfig

record ReviewResult =
  status :: ReviewStatus
  summary :: string
  prIntent :: "json option"
  impactAnalysis :: "json option"
  issues :: "ReviewIssue list"
  edgeCases :: "json option"
  missingTests :: "json option"
  missingDocumentation :: "json option"
  positives :: "json option"
  recommendations :: "json option"
  filesReviewed :: json
  filesSkipped :: "string list"
  stats :: ReviewStats
  metadata :: ReviewMetadata

text \<open>
  What \<open>review\<close> takes from outside the repository: the agent SDK's \<open>query\<close>, whose stream is
  the list of its messages and the exception that ends it, if any; the runtime's
  \<open>JSON.parse\<close> and string conversions; and the two readings of the clock.
\<close>

record runtime =
  rt_query :: "string \<Rightarrow> Options \<Rightarrow> SDKMessage list \<times> exn option"
  rt_JSON_parse :: "string \<Rightarrow> json option"
  rt_ToString :: "json option \<Rightarrow> exn + string"
  rt_Number_toString :: "jsnumber \<Rightarrow> string"
  rt_startTime :: string
  rt_endTime :: string

text \<open>The body of the loop \<open>for await (const message of query(...))\<close>.\<close>

definition review_message ::
  "string option \<times> string \<times> jsnumber \<times> jsnumber \<Rightarrow> SDKMessage
     \<Rightarrow> string option \<times> string \<times> jsnumber \<times> jsnumber" where
  "review_message st msg =
    (case st of (sid, resultText, cost, duration) \<Rightarrow>
      (case msg of
         SystemMessage s \<Rightarrow>
           (case s of None \<Rightarrow> st | Some i \<Rightarrow> (Some i, resultText, cost, duration))
       | ResultMessage r c d \<Rightarrow>
           (sid,
            (case r of None \<Rightarrow> resultText | Some t \<Rightarrow> t),
            (case c of None \<Rightarrow> cost | Some x \<Rightarrow> x),
            (case d of None \<Rightarrow> duration | Some x \<Rightarrow> x))
       | OtherMessage \<Rightarrow> st))"

text \<open>The object literal assigned to \<open>result\<close> in \<open>review\<close>.\<close>

definition review_result ::
  "runtime \<Rightarrow> CodeReviewAgent \<Rightarrow> ParsedResults \<Rightarrow> jsnumber \<Rightarrow> jsnumber \<Rightarrow> exn + ReviewResult" where
  "review_result rt this parsed cost duration =
    ebind (buildSummary (rt_ToString rt) (parsed_issues parsed) (parsed_filesReviewed parsed)
             (parsed_prIntent parsed)) (\<lambda>s.
      Inr \<lparr>status = determineStatus (parsed_issues parsed),
           summary = s,
           prIntent = parsed_prIntent parsed,
           impactAnalysis = parsed_impactAnalysis parsed,
           issues = filterIssuesBySeverity this (parsed_issues parsed),
           edgeCases = parsed_edgeCases parsed,
           missingTests = parsed_missingTests parsed,
           missingDocumentation = parsed_missingDocumentation parsed,
           positives = parsed_positives parsed,
           recommendations = parsed_recommendations parsed,
           filesReviewed = parsed_filesReviewed parsed,
           filesSkipped = [],
           stats =
             \<lparr>totalFiles = js_length (parsed_filesReviewed parsed),
              totalIssues = length (parsed_issues parsed),
              issuesBySeverity = countBySeverity (parsed_issues parsed),
              issuesByCategory = countByCategory (parsed_issues parsed),
              totalCostUsd = cost,
              durationMs = duration\<rparr>,
           metadata =
             \<lparr>startTime = rt_startTime rt,
              endTime = rt_endTime rt,
              meta_model = (case model (config this) of
                              None \<Rightarrow> ''claude-sonnet-4.5-20250929''
                            | Some m \<Rightarrow> if m = [] then ''claude-sonnet-4.5-20250929'' else m),
              meta_sessionId = (case sessionId this of
                                  None \<Rightarrow> ''unknown''
                                | Some i \<Rightarrow> if i = [] then ''unknown'' else i),
              meta_config = config this\<rparr>\<rparr>)"

text \<open>
  \<open>review\<close> returns the agent, whose \<open>sessionId\<close> the loop assigns, and the result or the
  exception that it rethrows.
\<close>

definition review ::
  "runtime \<Rightarrow> CodeReviewAgent \<Rightarrow> string \<Rightarrow> CodeReviewAgent \<times> (exn + ReviewResult)" where
  "review rt this target =
    (let prompt = buildPrompt (rt_Number_toString rt) this target;
         options = buildOptions this
     in case rt_query rt prompt options of (messages, failure) \<Rightarrow>
       (case foldl review_message (sessionId this, [], Fin 0, Fin 0) messages of
          (sid, resultText, totalCostUsd', durationMs') \<Rightarrow>
            (let this = this\<lparr>sessionId := sid\<rparr>
             in case failure of
                  Some e \<Rightarrow> (this, Inl e)
                | None \<Rightarrow>
                    (this,
                     ebind (parseResults (rt_JSON_parse rt) resultText) (\<lambda>parsed.
                       review_result rt this parsed totalCostUsd' durationMs')))))"

section \<open>utils/prompt-loader.ts\<close>

text \<open>The arrow of the \<open>Branch\<close> line, as the bytes of the file.\<close>

definition loader_arrow :: string where
  "loader_arrow = [CHR 0xC3, CHR 0xA2, CHR 0xE2, CHR 0x80, CHR 0xA0, CHR 0xE2, CHR 0x80, CHR 0x99]"

text \<open>The template literal assigned to \<open>prContextSection\<close> in \<open>loadReviewPrompt\<close>.\<close>

definition prContextSection :: "PRContext option \<Rightarrow> string" where
  "prContextSection prContext' =
    (case prContext' of
       None \<Rightarrow> []
     | Some pr \<Rightarrow>
         nl @ ''## Pull Request Context'' @ nl @ nl
         @ (case title pr of None \<Rightarrow> []
            | Some t \<Rightarrow> if t = [] then [] else ''**PR Title**: '' @ t @ nl)
         @ nl
         @ (case number pr of None \<Rightarrow> []
            | Some n \<Rightarrow> if pr_number_truthy n
                       then ''**PR Number**: #'' @ pr_number_toString n @ nl else [])
         @ nl
         @ (case description pr of None \<Rightarrow> []
            | Some d \<Rightarrow> if d = [] then [] else ''**PR Description**:'' @ nl @ d @ nl)
         @ nl
         @ (case author pr of None \<Rightarrow> []
            | Some a \<Rightarrow> if a = [] then [] else ''**Author**: '' @ a @ nl)
         @ nl
         @ (case branch pr of None \<Rightarrow> []
            | Some b \<Rightarrow>
                if b = [] then []
                else ''**Branch**: '' @ b @ '' '' @ loader_arrow @ '' ''
                       @ (case baseBranch pr of None \<Rightarrow> ''main''
                          | Some bb \<Rightarrow> if bb = [] then ''main'' else bb)
                       @ nl)
         @ nl
         @ (case changedFiles pr of None \<Rightarrow> []
            | Some fs \<Rightarrow>
                if length fs > 0
                then ''**Changed Files**:'' @ nl @ join nl (map (\<lambda>f. ''- '' @ f) fs) @ nl
                else [])
         @ nl @ nl
         @ ''**Important**: Use this context to understand the developer's intent and ensure your review addresses what they're trying to accomplish. Verify that the changes achieve the stated goals and handle all edge cases related to the PR's purpose.''
         @ nl)"

text \<open>
  \<open>loadReviewPrompt\<close>, from the PR-context section on: \<open>promptTemplate\<close> is the template
  file after its placeholders are replaced.
\<close>

definition loadReviewPrompt :: "string \<Rightarrow> PRContext option \<Rightarrow> string" where
  "loadReviewPrompt promptTemplate prContext' =
    (let section = prContextSection prContext'
     in if section \<noteq> [] then section @ nl @ promptTemplate else promptTemplate)"

section \<open>The specification's notions\<close>

text \<open>
  Two strings are casings of one another when they have the same length and, byte by
  byte, the same byte or the two cases of one ASCII letter.
\<close>

definition same_letter :: "char \<Rightarrow> char \<Rightarrow> bool" where
  "same_letter a b = (a = b \<or> (a, b) \<in> set ascii_letters \<or> (b, a) \<in> set ascii_letters)"

definition eq_ignore_case :: "string \<Rightarrow> string \<Rightarrow> bool" where
  "eq_ignore_case s t = list_all2 same_letter s t"

text \<open>
  A spelling of an upper-case ASCII word: letter by letter, the letter in either case, or
  the dotless i (U+0131, two bytes) in the place of an \<open>I\<close>.
\<close>

definition dotless_i :: string where
  "dotless_i = [CHR 0xC4, CHR 0xB1]"

fun spelling_of :: "string \<Rightarrow> string \<Rightarrow> bool" where
  "spelling_of s [] = (s = [])"
| "spelling_of s (u # w) =
     ((case s of [] \<Rightarrow> False | c # cs \<Rightarrow> same_letter c u \<and> spelling_of cs w)
      \<or> (u = CHR ''I'' \<and> take 2 s = dotless_i \<and> spelling_of (drop 2 s) w))"

text \<open>
  An ASCII letter, and an upper-case ASCII letter other than \<open>F\<close> and \<open>S\<close>: the six
  severity words are written with such letters.
\<close>

definition ascii_letter :: "char \<Rightarrow> bool" where
  "ascii_letter c = (c \<in> fst ` set ascii_letters \<or> c \<in> snd ` set ascii_letters)"

definition plain_capital :: "char \<Rightarrow> bool" where
  "plain_capital c = (c \<in> snd ` set ascii_letters \<and> c \<noteq> CHR ''F'' \<and> c \<noteq> CHR ''S'')"

text \<open>A string of ASCII characters only: every byte is below 128.\<close>

definition ascii_only :: "string \<Rightarrow> bool" where
  "ascii_only s = list_all (\<lambda>b. (of_char b :: nat) < 128) s"

text \<open>The order \<open>info < warning < error < critical\<close>.\<close>

fun severity_rank :: "IssueSeverity \<Rightarrow> nat" where
  "severity_rank Info = 0"
| "severity_rank Warning = 1"
| "severity_rank Error = 2"
| "severity_rank Critical = 3"

text \<open>
  The mapping keyed by rule id of the specification: seeded with the default rules and
  overridden, id by id, by the user's rules; of two rules of one list with the same id the
  later one stays.
\<close>

definition spec_rules_map :: "ReviewRule list \<Rightarrow> ReviewRule list \<Rightarrow> (string \<rightharpoonup> ReviewRule)" where
  "spec_rules_map defaultRules userRules =
    map_of (rev (map (\<lambda>r. (rule_id r, r)) defaultRules))
      ++ map_of (rev (map (\<lambda>r. (rule_id r, r)) userRules))"

text \<open>
  The line of an optional field in a prompt: nothing when the field is absent (or the
  empty string, or the number zero), its label and value otherwise.
\<close>

definition field_line :: "string \<Rightarrow> string option \<Rightarrow> string" where
  "field_line label v =
    (case v of None \<Rightarrow> [] | Some s \<Rightarrow> if s = [] then [] else label @ s @ nl)"

definition number_line :: "string \<Rightarrow> pr_number option \<Rightarrow> string" where
  "number_line label v =
    (case v of None \<Rightarrow> []
     | Some n \<Rightarrow> if pr_number_truthy n then label @ pr_number_toString n @ nl else [])"

section \<open>Sample inputs\<close>

definition example_issue :: "IssueSeverity \<Rightarrow> ReviewIssue" where
  "example_issue s =
    \<lparr>ruleId = JStr ''general'', severity = s, category = Best_practices,
     filePath = JStr ''a.ts'', line = None, message = None, suggestion = None,
     impact = None\<rparr>"

definition example_process :: process where
  "example_process =
    \<lparr>parsed_MAX_FILES_PER_REVIEW = Fin 50, parsed_MAX_BUDGET_USD = Fin 5,
     env_MODEL = None, env_LOG_LEVEL = None, env_ANTHROPIC_API_KEY = Some ''sk-key'',
     process_cwd = ''/repo''\<rparr>"

definition example_userConfig :: PartialReviewConfig where
  "example_userConfig =
    \<lparr>user_maxFiles = Absent, user_maxBudgetUsd = Absent, user_model = Absent,
     user_excludePatterns = Absent, user_includePatterns = Absent, user_cwd = Absent,
     user_verbose = Absent, user_rules = Absent, user_severityThreshold = Absent,
     user_prContext = Absent\<rparr>"

definition example_agent :: "IssueSeverity option \<Rightarrow> CodeReviewAgent" where
  "example_agent t =
    \<lparr>config = (buildConfig example_process example_userConfig)\<lparr>severityThreshold := t\<rparr>,
     sessionId = None\<rparr>"

definition example_rule :: "string \<Rightarrow> bool \<Rightarrow> ReviewRule" where
  "example_rule i e =
    \<lparr>rule_id = i, rule_name = ''Custom rule'', rule_description = ''A rule of the user'',
     rule_severity = Warning, rule_category = Style, rule_enabled = e\<rparr>"

definition example_prContext :: PRContext where
  "example_prContext =
    \<lparr>title = None, description = None, number = None, branch = Some ''feat'',
     author = None, changedFiles = None, baseBranch = None, fileDiffs = None\<rparr>"


section \<open>Severity mapping\<close>

lemma distinct_lower: "distinct (map fst ascii_letters)"
  by (simp add: ascii_letters_def)

lemma distinct_upper: "distinct (map snd ascii_letters)"
  by (simp add: ascii_letters_def)

lemma lower_upper_disjoint: "fst ` set ascii_letters \<inter> snd ` set ascii_letters = {}"
  by (simp add: ascii_letters_def)

lemma toUpperChar_pair: "(l, u) \<in> set ascii_letters \<Longrightarrow> toUpperChar l = u"
  using distinct_lower by (simp add: toUpperChar_def)

lemma toUpperChar_upper: "(l, u) \<in> set ascii_letters \<Longrightarrow> toUpperChar u = u"
proof -
  assume h: "(l, u) \<in> set ascii_letters"
  have "u \<notin> fst ` set ascii_letters"
    using h lower_upper_disjoint by force
  then have "map_of ascii_letters u = None"
    by (simp add: map_of_eq_None_iff)
  then show ?thesis by (simp add: toUpperChar_def)
qed

lemma toUpperChar_cases:
  "(toUpperChar c = c \<and> c \<notin> fst ` set ascii_letters) \<or> (c, toUpperChar c) \<in> set ascii_letters"
proof (cases "map_of ascii_letters c")
  case None
  then have "toUpperChar c = c" by (simp add: toUpperChar_def)
  moreover from None have "c \<notin> fst ` set ascii_letters" by (simp add: map_of_eq_None_iff)
  ultimately show ?thesis by simp
next
  case (Some u)
  then show ?thesis by (simp add: toUpperChar_def map_of_SomeD)
qed

lemma upper_inj: "(a, u) \<in> set ascii_letters \<Longrightarrow> (b, u) \<in> set ascii_letters \<Longrightarrow> a = b"
proof -
  assume h: "(a, u) \<in> set ascii_letters" "(b, u) \<in> set ascii_letters"
  have "inj_on snd (set ascii_letters)"
    using distinct_upper by (simp add: distinct_map)
  from inj_onD [OF this, of "(a, u)" "(b, u)"] h show ?thesis by simp
qed

lemma toUpperChar_eq_iff: "toUpperChar a = toUpperChar b \<longleftrightarrow> same_letter a b"
proof
  assume eq: "toUpperChar a = toUpperChar b"
  consider (ff) "toUpperChar a = a" "toUpperChar b = b"
    | (fl) "toUpperChar a = a" "(b, toUpperChar b) \<in> set ascii_letters"
    | (lf) "(a, toUpperChar a) \<in> set ascii_letters" "toUpperChar b = b"
    | (ll) "(a, toUpperChar a) \<in> set ascii_letters" "(b, toUpperChar b) \<in> set ascii_letters"
    using toUpperChar_cases [of a] toUpperChar_cases [of b] by blast
  then show "same_letter a b"
  proof cases
    case ff
    with eq show ?thesis by (simp add: same_letter_def)
  next
    case fl
    with eq show ?thesis by (simp add: same_letter_def)
  next
    case lf
    with eq show ?thesis by (simp add: same_letter_def)
  next
    case ll
    with eq have "a = b" by (auto intro: upper_inj)
    then show ?thesis by (simp add: same_letter_def)
  qed
next
  assume "same_letter a b"
  then show "toUpperChar a = toUpperChar b"
    by (auto simp: same_letter_def toUpperChar_pair toUpperChar_upper)
qed

lemma toUpperCase_Nil: "toUpperCase [] = []"
  by (simp add: toUpperCase_def)

lemma toUpperCase_Cons:
  "toUpperCase (c # cs) =
     (case special_case upper_special (c # cs) of
        None \<Rightarrow> toUpperChar c # toUpperCase cs
      | Some (v, rest) \<Rightarrow> v @ toUpperCase rest)"
  by (simp add: toUpperCase_def split: option.split)

lemma special_case_SomeD:
  "special_case tab s = Some (v, rest) \<Longrightarrow>
     \<exists>k. (k, v) \<in> set tab \<and> k \<noteq> [] \<and> take (length k) s = k \<and> rest = drop (length k) s"
  by (induction tab) (auto split: if_splits)

lemma special_case_NoneD:
  "special_case tab s = None \<Longrightarrow> (k, v) \<in> set tab \<Longrightarrow> k \<noteq> [] \<Longrightarrow> take (length k) s \<noteq> k"
  by (induction tab) (auto split: if_splits)

lemma upper_special_all:
  "list_all (\<lambda>(k, v). 2 \<le> length k \<and> list_all (\<lambda>b. \<not> ascii_letter b) k
     \<and> ((k = dotless_i \<and> v = ''I'')
         \<or> (take 2 k \<noteq> dotless_i \<and> list_ex (\<lambda>b. \<not> plain_capital b) v))) upper_special"
  by code_simp

lemma upper_special_keys:
  "(k, v) \<in> set upper_special \<Longrightarrow>
     2 \<le> length k \<and> (\<forall>b \<in> set k. \<not> ascii_letter b)
     \<and> ((k = dotless_i \<and> v = ''I'')
         \<or> (take 2 k \<noteq> dotless_i \<and> (\<exists>b \<in> set v. \<not> plain_capital b)))"
  using upper_special_all by (auto simp: list_all_iff list_ex_iff)

lemma dotless_i_special: "(dotless_i, ''I'') \<in> set upper_special"
  by (simp add: upper_special_def dotless_i_def)

lemma same_letter_ascii: "same_letter a b \<Longrightarrow> a = b \<or> (ascii_letter a \<and> ascii_letter b)"
  by (force simp: same_letter_def ascii_letter_def)

lemma same_letter_sym: "same_letter a b \<Longrightarrow> same_letter b a"
  by (auto simp: same_letter_def)

lemma plain_capital_letter: "plain_capital u \<Longrightarrow> ascii_letter u"
  by (simp add: plain_capital_def ascii_letter_def)


lemma length_dotless_i: "length dotless_i = 2"
  by (simp add: dotless_i_def)

lemma special_case_shorter:
  "special_case tab s = Some (v, rest) \<Longrightarrow> length rest < length s"
proof -
  assume "special_case tab s = Some (v, rest)"
  from special_case_SomeD [OF this] obtain k
    where k: "k \<noteq> []" "take (length k) s = k" "rest = drop (length k) s" by blast
  then have "s \<noteq> []" by auto
  with k show ?thesis by (simp add: diff_less)
qed

lemma toUpperChar_capital: "plain_capital u \<Longrightarrow> (toUpperChar c = u) = same_letter c u"
proof -
  assume "plain_capital u"
  then obtain l where "(l, u) \<in> set ascii_letters" by (auto simp: plain_capital_def)
  then have "toUpperChar u = u" by (rule toUpperChar_upper)
  with toUpperChar_eq_iff [of c u] show ?thesis by simp
qed

lemma toUpperCase_spelling:
  "\<forall>b \<in> set w. plain_capital b \<Longrightarrow> (toUpperCase s = w) = spelling_of s w"
proof (induction "length s" arbitrary: s w rule: less_induct)
  case less
  show ?case
  proof (cases s)
    case Nil
    then show ?thesis by (cases w) (auto simp: toUpperCase_Nil dotless_i_def)
  next
    case (Cons c cs)
    show ?thesis
    proof (cases "special_case upper_special s")
      case None
      have "dotless_i \<noteq> []" by (simp add: dotless_i_def)
      from special_case_NoneD [OF None dotless_i_special this]
      have nd: "take 2 s \<noteq> dotless_i" unfolding length_dotless_i .
      have up: "toUpperCase s = toUpperChar c # toUpperCase cs"
        using None Cons by (simp add: toUpperCase_Cons)
      show ?thesis
      proof (cases w)
        case Nil
        with up Cons show ?thesis by simp
      next
        case w: (Cons u w')
        have "(toUpperCase cs = w') = spelling_of cs w'"
          using less.hyps [of cs w'] less.prems Cons w by simp
        moreover have "(toUpperChar c = u) = same_letter c u"
          using less.prems w by (simp add: toUpperChar_capital)
        ultimately have L: "(toUpperCase s = w) = (same_letter c u \<and> spelling_of cs w')"
          using up w by simp
        have "spelling_of s (u # w')
            = ((same_letter c u \<and> spelling_of cs w')
               \<or> (u = CHR ''I'' \<and> take 2 s = dotless_i \<and> spelling_of (drop 2 s) w'))"
          unfolding Cons by (simp only: spelling_of.simps list.case)
        with nd have "spelling_of s w = (same_letter c u \<and> spelling_of cs w')"
          unfolding w by blast
        with L show ?thesis by blast
      qed
    next
      case (Some x)
      obtain v rest where x: "x = (v, rest)" by (cases x)
      from Some x special_case_SomeD [of upper_special s v rest] obtain k
        where k: "(k, v) \<in> set upper_special" "k \<noteq> []" "take (length k) s = k"
          "rest = drop (length k) s" by blast
      have up: "toUpperCase s = v @ toUpperCase rest"
        using Some x Cons by (simp add: toUpperCase_Cons)
      have short: "length rest < length s"
        using Some x by (simp add: special_case_shorter)
      from upper_special_keys [OF k(1)] have k2: "2 \<le> length k"
        and kl: "\<forall>b \<in> set k. \<not> ascii_letter b"
        and kc: "(k = dotless_i \<and> v = ''I'')
                 \<or> (take 2 k \<noteq> dotless_i \<and> (\<exists>b \<in> set v. \<not> plain_capital b))"
        by blast+
      have "hd k = c" using k(2,3) Cons by (cases k) auto
      with kl k(2) have cl: "\<not> ascii_letter c" by (cases k) auto
      have nsl: "\<not> same_letter c u" if "plain_capital u" for u
        using same_letter_ascii [of c u] cl plain_capital_letter [OF that] by auto
      have "take 2 (take (length k) s) = take 2 s"
        using k2 by (simp add: min_def)
      then have t2: "take 2 s = take 2 k"
        by (simp only: k(3))
      from kc show ?thesis
      proof
        assume d: "k = dotless_i \<and> v = ''I''"
        then have rest: "rest = drop 2 s" using k(4) by (simp only: length_dotless_i)
        from d have up': "toUpperCase s = CHR ''I'' # toUpperCase (drop 2 s)"
          using up rest by simp
        from d have "take 2 k = k" by (simp only: length_dotless_i [symmetric] take_all order_refl)
        with d have t2': "take 2 s = dotless_i" using t2 by simp
        show ?thesis
        proof (cases w)
          case Nil
          with up' Cons show ?thesis by simp
        next
          case w: (Cons u w')
          have ih: "(toUpperCase (drop 2 s) = w') = spelling_of (drop 2 s) w'"
            using less.hyps [of "drop 2 s" w'] less.prems short rest w by simp
          have ns: "\<not> same_letter c u" using nsl less.prems w by simp
          have L: "(toUpperCase s = w) = (u = CHR ''I'' \<and> spelling_of (drop 2 s) w')"
            using up' w ih by auto
          have "spelling_of s (u # w')
              = ((same_letter c u \<and> spelling_of cs w')
                 \<or> (u = CHR ''I'' \<and> take 2 s = dotless_i \<and> spelling_of (drop 2 s) w'))"
            unfolding Cons by (simp only: spelling_of.simps list.case)
          with t2' ns
          have "spelling_of s w = (u = CHR ''I'' \<and> spelling_of (drop 2 s) w')"
            unfolding w by blast
          with L show ?thesis by blast
        qed
      next
        assume n: "take 2 k \<noteq> dotless_i \<and> (\<exists>b \<in> set v. \<not> plain_capital b)"
        then have "toUpperCase s \<noteq> w" using up less.prems by auto
        moreover have "\<not> spelling_of s w"
        proof (cases w)
          case Nil
          with Cons show ?thesis by simp
        next
          case w: (Cons u w')
          have ns: "\<not> same_letter c u" using nsl less.prems w by simp
          have "spelling_of s (u # w')
              = ((same_letter c u \<and> spelling_of cs w')
                 \<or> (u = CHR ''I'' \<and> take 2 s = dotless_i \<and> spelling_of (drop 2 s) w'))"
            unfolding Cons by (simp only: spelling_of.simps list.case)
          with ns n t2 show ?thesis unfolding w by simp
        qed
        ultimately show ?thesis by simp
      qed
    qed
  qed
qed


lemma same_letter_fixed:
  "list_all2 same_letter xs ys \<Longrightarrow> \<forall>b \<in> set xs. \<not> ascii_letter b \<Longrightarrow> xs = ys"
proof (induction rule: list_all2_induct)
  case Nil
  show ?case by simp
next
  case (Cons x xs y ys)
  from Cons.hyps(1) Cons.prems have "x = y"
    using same_letter_ascii [of x y] by auto
  with Cons show ?case by simp
qed

lemma eq_ignore_case_sym: "list_all2 same_letter s t \<Longrightarrow> list_all2 same_letter t s"
  by (induction rule: list_all2_induct) (auto intro: same_letter_sym)

lemma eq_ignore_case_prefix:
  "list_all2 same_letter s t \<Longrightarrow> \<forall>b \<in> set k. \<not> ascii_letter b \<Longrightarrow>
     take (length k) s = k \<Longrightarrow> take (length k) t = k"
proof -
  assume a: "list_all2 same_letter s t" "\<forall>b \<in> set k. \<not> ascii_letter b"
    "take (length k) s = k"
  from a(1) have "list_all2 same_letter (take (length k) s) (take (length k) t)"
    by (rule list_all2_takeI)
  then have "list_all2 same_letter k (take (length k) t)" by (simp only: a(3))
  from same_letter_fixed [OF this a(2)] show ?thesis by simp
qed

lemma special_case_cong:
  "list_all2 same_letter s t \<Longrightarrow> \<forall>k v. (k, v) \<in> set tab \<longrightarrow> (\<forall>b \<in> set k. \<not> ascii_letter b) \<Longrightarrow>
     rel_option (\<lambda>(v, r) (v', r'). v = v' \<and> list_all2 same_letter r r')
       (special_case tab s) (special_case tab t)"
proof (induction tab)
  case Nil
  show ?case by simp
next
  case (Cons a tab)
  obtain k v where a: "a = (k, v)" by (cases a)
  have key: "\<forall>b \<in> set k. \<not> ascii_letter b" using Cons.prems(2) a by simp
  have iff: "(take (length k) s = k) = (take (length k) t = k)"
    using eq_ignore_case_prefix [OF Cons.prems(1) key]
      eq_ignore_case_prefix [OF eq_ignore_case_sym [OF Cons.prems(1)] key] by blast
  show ?case
  proof (cases "k \<noteq> [] \<and> take (length k) s = k")
    case True
    with iff have "k \<noteq> [] \<and> take (length k) t = k" by simp
    with True a Cons.prems(1) show ?thesis by (simp add: list_all2_dropI)
  next
    case False
    with iff have "\<not> (k \<noteq> [] \<and> take (length k) t = k)" by simp
    moreover have "rel_option (\<lambda>(v, r) (v', r'). v = v' \<and> list_all2 same_letter r r')
       (special_case tab s) (special_case tab t)"
    proof (rule Cons.IH [OF Cons.prems(1)])
      show "\<forall>k v. (k, v) \<in> set tab \<longrightarrow> (\<forall>b \<in> set k. \<not> ascii_letter b)"
        using Cons.prems(2) by (meson list.set_intros(2))
    qed
    ultimately show ?thesis using False a by auto
  qed
qed

lemma toUpperCase_cong: "list_all2 same_letter s t \<Longrightarrow> toUpperCase s = toUpperCase t"
proof (induction "length s" arbitrary: s t rule: less_induct)
  case less
  show ?case
  proof (cases s)
    case Nil
    with less.prems show ?thesis by simp
  next
    case (Cons c cs)
    with less.prems obtain d ds where t: "t = d # ds" and cd: "same_letter c d"
      and rest: "list_all2 same_letter cs ds"
      by (auto simp: list_all2_Cons1)
    have rel: "rel_option (\<lambda>(v, r) (v', r'). v = v' \<and> list_all2 same_letter r r')
       (special_case upper_special s) (special_case upper_special t)"
      using special_case_cong [OF less.prems] upper_special_keys by blast
    show ?thesis
    proof (cases "special_case upper_special s")
      case None
      with rel have None': "special_case upper_special t = None" by simp
      have "toUpperChar c = toUpperChar d" using cd by (simp add: toUpperChar_eq_iff)
      moreover have "toUpperCase cs = toUpperCase ds"
        using less.hyps [of cs ds] rest Cons by simp
      ultimately show ?thesis
        using None None' Cons t by (simp add: toUpperCase_Cons)
    next
      case (Some x)
      obtain v r where x: "x = (v, r)" by (cases x)
      with Some rel obtain r' where Some': "special_case upper_special t = Some (v, r')"
        and rr: "list_all2 same_letter r r'"
        by (auto simp: option_rel_Some1)
      have "length r < length s" using Some x by (simp add: special_case_shorter)
      from less.hyps [OF this rr] have "toUpperCase r = toUpperCase r'" .
      then show ?thesis
        using Some x Some' Cons t by (simp add: toUpperCase_Cons)
    qed
  qed
qed

lemma spelling_of_ascii: "ascii_only s \<Longrightarrow> spelling_of s w = eq_ignore_case s w"
  unfolding ascii_only_def list_all_iff
proof (induction w arbitrary: s)
  case Nil
  show ?case by (auto simp: eq_ignore_case_def)
next
  case (Cons u w)
  have nd: "take 2 s \<noteq> dotless_i"
  proof
    assume "take 2 s = dotless_i"
    then have "CHR 0xC4 \<in> set (take 2 s)" by (simp add: dotless_i_def)
    then have "CHR 0xC4 \<in> set s" by (rule in_set_takeD)
    with Cons.prems show False by auto
  qed
  show ?case
  proof (cases s)
    case Nil
    with nd show ?thesis by (simp add: eq_ignore_case_def)
  next
    case s: (Cons c cs)
    have "spelling_of cs w = eq_ignore_case cs w"
      using Cons.IH [of cs] Cons.prems s by simp
    moreover have "spelling_of s (u # w)
        = ((same_letter c u \<and> spelling_of cs w)
           \<or> (u = CHR ''I'' \<and> take 2 s = dotless_i \<and> spelling_of (drop 2 s) w))"
      unfolding s by (simp only: spelling_of.simps list.case)
    ultimately show ?thesis
      using nd by (simp add: eq_ignore_case_def s)
  qed
qed

lemma severity_words_plain:
  "\<forall>b \<in> set ''HIGH''. plain_capital b" "\<forall>b \<in> set ''CRITICAL''. plain_capital b"
  "\<forall>b \<in> set ''MEDIUM''. plain_capital b" "\<forall>b \<in> set ''ERROR''. plain_capital b"
  "\<forall>b \<in> set ''LOW''. plain_capital b" "\<forall>b \<in> set ''WARNING''. plain_capital b"
  by (simp_all add: plain_capital_def ascii_letters_def)

lemma mapSeverity_words:
  "mapSeverity ''HIGH'' = Critical" "mapSeverity ''CRITICAL'' = Critical"
  "mapSeverity ''MEDIUM'' = Error" "mapSeverity ''ERROR'' = Error"
  "mapSeverity ''LOW'' = Warning" "mapSeverity ''WARNING'' = Warning"
  "mapSeverity ''INFO'' = Info" "mapSeverity [] = Info"
  by code_simp+


text \<open>
  Claim C1, amended. \<open>mapSeverity\<close> is a total function into the four canonical levels.
  The strings that JavaScript's \<open>toUpperCase\<close> takes to \<open>HIGH\<close> or \<open>CRITICAL\<close> map to
  \<open>critical\<close>, those it takes to \<open>MEDIUM\<close> or \<open>ERROR\<close> to \<open>error\<close>, those it takes to \<open>LOW\<close>
  or \<open>WARNING\<close> to \<open>warning\<close>, and every other string to \<open>info\<close>; these strings are the
  spellings of the word with each letter in either case and, in the place of an \<open>I\<close>, also
  the dotless i (U+0131). For a string of ASCII characters they are the casings of the
  word, so that on ASCII input the mapping is the one of the specification. Every casing
  of a severity word maps to the word's level, two casings of one string map to the same
  level, and the empty string and the default \<open>INFO\<close>, which \<open>parseResults\<close> passes when
  the field is absent or empty, map to \<open>info\<close>.
\<close>

theorem mapSeverity_levels:
  "mapSeverity s =
     (if spelling_of s ''HIGH'' \<or> spelling_of s ''CRITICAL'' then Critical
      else if spelling_of s ''MEDIUM'' \<or> spelling_of s ''ERROR'' then Error
      else if spelling_of s ''LOW'' \<or> spelling_of s ''WARNING'' then Warning
      else Info)
   \<and> (ascii_only s \<longrightarrow> mapSeverity s =
     (if eq_ignore_case s ''HIGH'' \<or> eq_ignore_case s ''CRITICAL'' then Critical
      else if eq_ignore_case s ''MEDIUM'' \<or> eq_ignore_case s ''ERROR'' then Error
      else if eq_ignore_case s ''LOW'' \<or> eq_ignore_case s ''WARNING'' then Warning
      else Info))
   \<and> (eq_ignore_case s ''HIGH'' \<or> eq_ignore_case s ''CRITICAL'' \<longrightarrow> mapSeverity s = Critical)
   \<and> (eq_ignore_case s ''MEDIUM'' \<or> eq_ignore_case s ''ERROR'' \<longrightarrow> mapSeverity s = Error)
   \<and> (eq_ignore_case s ''LOW'' \<or> eq_ignore_case s ''WARNING'' \<longrightarrow> mapSeverity s = Warning)
   \<and> (eq_ignore_case s t \<longrightarrow> mapSeverity s = mapSeverity t)
   \<and> mapSeverity s \<in> {Critical, Error, Warning, Info}
   \<and> mapSeverity [] = Info
   \<and> mapSeverity ''INFO'' = Info
   \<and> string_method mapSeverity (or_default None (JStr ''INFO'')) = Inr Info
   \<and> string_method mapSeverity (or_default (Some (JStr [])) (JStr ''INFO'')) = Inr Info"
proof -
  have 1: "mapSeverity s =
     (if spelling_of s ''HIGH'' \<or> spelling_of s ''CRITICAL'' then Critical
      else if spelling_of s ''MEDIUM'' \<or> spelling_of s ''ERROR'' then Error
      else if spelling_of s ''LOW'' \<or> spelling_of s ''WARNING'' then Warning
      else Info)"
    by (simp only: mapSeverity_def Let_def
        toUpperCase_spelling [OF severity_words_plain(1)]
        toUpperCase_spelling [OF severity_words_plain(2)]
        toUpperCase_spelling [OF severity_words_plain(3)]
        toUpperCase_spelling [OF severity_words_plain(4)]
        toUpperCase_spelling [OF severity_words_plain(5)]
        toUpperCase_spelling [OF severity_words_plain(6)])
  have 2: "ascii_only s \<longrightarrow> mapSeverity s =
     (if eq_ignore_case s ''HIGH'' \<or> eq_ignore_case s ''CRITICAL'' then Critical
      else if eq_ignore_case s ''MEDIUM'' \<or> eq_ignore_case s ''ERROR'' then Error
      else if eq_ignore_case s ''LOW'' \<or> eq_ignore_case s ''WARNING'' then Warning
      else Info)"
  proof
    assume "ascii_only s"
    then have "spelling_of s w = eq_ignore_case s w" for w by (rule spelling_of_ascii)
    with 1 show "mapSeverity s =
     (if eq_ignore_case s ''HIGH'' \<or> eq_ignore_case s ''CRITICAL'' then Critical
      else if eq_ignore_case s ''MEDIUM'' \<or> eq_ignore_case s ''ERROR'' then Error
      else if eq_ignore_case s ''LOW'' \<or> eq_ignore_case s ''WARNING'' then Warning
      else Info)" by (simp only:)
  qed
  have cong: "mapSeverity a = mapSeverity b" if "eq_ignore_case a b" for a b
    using toUpperCase_cong [of a b] that by (simp add: mapSeverity_def eq_ignore_case_def)
  have 3: "eq_ignore_case s ''HIGH'' \<or> eq_ignore_case s ''CRITICAL'' \<longrightarrow> mapSeverity s = Critical"
    using cong [of s "''HIGH''"] cong [of s "''CRITICAL''"]
    by (auto simp only: mapSeverity_words)
  have 4: "eq_ignore_case s ''MEDIUM'' \<or> eq_ignore_case s ''ERROR'' \<longrightarrow> mapSeverity s = Error"
    using cong [of s "''MEDIUM''"] cong [of s "''ERROR''"]
    by (auto simp only: mapSeverity_words)
  have 5: "eq_ignore_case s ''LOW'' \<or> eq_ignore_case s ''WARNING'' \<longrightarrow> mapSeverity s = Warning"
    using cong [of s "''LOW''"] cong [of s "''WARNING''"]
    by (auto simp only: mapSeverity_words)
  have 6: "eq_ignore_case s t \<longrightarrow> mapSeverity s = mapSeverity t"
    using cong [of s t] by blast
  have 7: "mapSeverity s \<in> {Critical, Error, Warning, Info}"
    by (cases "mapSeverity s") simp_all
  have 8: "mapSeverity [] = Info" "mapSeverity ''INFO'' = Info"
    by (rule mapSeverity_words)+
  have 9: "string_method mapSeverity (or_default None (JStr ''INFO'')) = Inr Info"
    "string_method mapSeverity (or_default (Some (JStr [])) (JStr ''INFO'')) = Inr Info"
    by (simp_all add: string_method_def or_default_def 8)
  from 1 2 3 4 5 6 7 8 9 show ?thesis by blast
qed

theorem mapSeverity_levels_witness:
  "ascii_only ''hIgH'' \<and> eq_ignore_case ''hIgH'' ''HIGH'' \<and> mapSeverity ''hIgH'' = Critical
   \<and> mapSeverity ''HIGH'' = Critical"
proof -
  have a: "ascii_only ''hIgH''" by (simp add: ascii_only_def)
  have e: "eq_ignore_case ''hIgH'' ''HIGH''"
    by (simp add: eq_ignore_case_def same_letter_def ascii_letters_def)
  from mapSeverity_levels [of "''hIgH''" "''HIGH''"] a e
  have "mapSeverity ''hIgH'' = Critical" "mapSeverity ''hIgH'' = mapSeverity ''HIGH''"
    by blast+
  with a e show ?thesis by (simp only:)
qed

text \<open>
  Claim C1 as stated fails: the five-byte string \<open>h\<close>, U+0131, \<open>g\<close>, \<open>h\<close> (with the dotless
  i, bytes C4 B1) is a casing of none of the six severity words, so the claim sends it to
  \<open>info\<close>; JavaScript's \<open>toUpperCase\<close> takes it to \<open>HIGH\<close> and \<open>mapSeverity\<close> returns
  \<open>critical\<close>.
\<close>

theorem mapSeverity_dotless_i:
  "mapSeverity [CHR ''h'', CHR 0xC4, CHR 0xB1, CHR ''g'', CHR ''h''] = Critical
   \<and> \<not> eq_ignore_case [CHR ''h'', CHR 0xC4, CHR 0xB1, CHR ''g'', CHR ''h''] ''HIGH''
   \<and> \<not> eq_ignore_case [CHR ''h'', CHR 0xC4, CHR 0xB1, CHR ''g'', CHR ''h''] ''CRITICAL''
   \<and> \<not> eq_ignore_case [CHR ''h'', CHR 0xC4, CHR 0xB1, CHR ''g'', CHR ''h''] ''MEDIUM''
   \<and> \<not> eq_ignore_case [CHR ''h'', CHR 0xC4, CHR 0xB1, CHR ''g'', CHR ''h''] ''ERROR''
   \<and> \<not> eq_ignore_case [CHR ''h'', CHR 0xC4, CHR 0xB1, CHR ''g'', CHR ''h''] ''LOW''
   \<and> \<not> eq_ignore_case [CHR ''h'', CHR 0xC4, CHR 0xB1, CHR ''g'', CHR ''h''] ''WARNING''"
proof -
  have "mapSeverity [CHR ''h'', CHR 0xC4, CHR 0xB1, CHR ''g'', CHR ''h''] = Critical"
    by code_simp
  moreover have "\<not> eq_ignore_case [CHR ''h'', CHR 0xC4, CHR 0xB1, CHR ''g'', CHR ''h''] w"
    if "length w \<noteq> 5" for w
    using that by (auto simp: eq_ignore_case_def dest: list_all2_lengthD)
  moreover have "\<not> eq_ignore_case [CHR ''h'', CHR 0xC4, CHR 0xB1, CHR ''g'', CHR ''h''] ''ERROR''"
    by (simp add: eq_ignore_case_def same_letter_def ascii_letters_def)
  ultimately show ?thesis by simp
qed


section \<open>Status and threshold\<close>

text \<open>
  Claim C2. \<open>determineStatus\<close> returns \<open>failure\<close> when some issue is \<open>critical\<close>, else
  \<open>partial\<close> when some issue is \<open>error\<close>, else \<open>success\<close>; a list of \<open>warning\<close> and \<open>info\<close>
  issues only, and the empty list, give \<open>success\<close>.
\<close>

theorem determineStatus_precedence:
  "determineStatus issues' =
     (if \<exists>i \<in> set issues'. severity i = Critical then Failure
      else if \<exists>i \<in> set issues'. severity i = Error then Partial
      else Success)
   \<and> ((\<forall>i \<in> set issues'. severity i = Warning \<or> severity i = Info)
        \<longrightarrow> determineStatus issues' = Success)
   \<and> determineStatus [] = Success"
proof -
  have 1: "determineStatus issues' =
     (if \<exists>i \<in> set issues'. severity i = Critical then Failure
      else if \<exists>i \<in> set issues'. severity i = Error then Partial
      else Success)"
    by (simp add: determineStatus_def list_ex_iff)
  have 2: "(\<forall>i \<in> set issues'. severity i = Warning \<or> severity i = Info)
        \<longrightarrow> determineStatus issues' = Success"
  proof
    assume a: "\<forall>i \<in> set issues'. severity i = Warning \<or> severity i = Info"
    have "\<not> (\<exists>i \<in> set issues'. severity i = Critical)"
      using a by fastforce
    moreover have "\<not> (\<exists>i \<in> set issues'. severity i = Error)"
      using a by fastforce
    ultimately show "determineStatus issues' = Success"
      by (simp only: 1 if_False)
  qed
  have 3: "determineStatus [] = Success"
    by (simp add: determineStatus_def)
  from 1 2 3 show ?thesis by blast
qed

theorem determineStatus_precedence_witness:
  "severity (example_issue Warning) = Warning \<and> severity (example_issue Info) = Info
   \<and> determineStatus [example_issue Warning, example_issue Info] = Success
   \<and> determineStatus [example_issue Error, example_issue Warning] = Partial
   \<and> determineStatus [example_issue Error, example_issue Critical] = Failure"
  using determineStatus_precedence [of "[example_issue Warning, example_issue Info]"]
    determineStatus_precedence [of "[example_issue Error, example_issue Warning]"]
    determineStatus_precedence [of "[example_issue Error, example_issue Critical]"]
  by (simp add: example_issue_def)

lemma indexOf_severityLevels: "indexOf severityLevels s = int (severity_rank s)"
  by (cases s) (simp_all add: severityLevels_def)

lemma length_filter_mono:
  "(\<And>x. x \<in> set xs \<Longrightarrow> P x \<Longrightarrow> Q x) \<Longrightarrow> length (filter P xs) \<le> length (filter Q xs)"
  by (induction xs) auto

text \<open>
  Claim C3. With a threshold configured, \<open>filterIssuesBySeverity\<close> keeps an issue if and
  only if the rank of its severity in \<open>info < warning < error < critical\<close> is at least the
  rank of the threshold; with no threshold it returns the list unchanged; a higher
  threshold never gives a longer list, and no threshold gives a list longer than the input.
\<close>

theorem filterIssuesBySeverity_rank:
  "(severityThreshold (config this) = Some t \<longrightarrow>
      filterIssuesBySeverity this issues' =
        filter (\<lambda>i. severity_rank t \<le> severity_rank (severity i)) issues')
   \<and> (severityThreshold (config this) = Some t \<longrightarrow>
        (i \<in> set (filterIssuesBySeverity this issues')
           \<longleftrightarrow> i \<in> set issues' \<and> severity_rank t \<le> severity_rank (severity i)))
   \<and> (severityThreshold (config this) = None \<longrightarrow>
        filterIssuesBySeverity this issues' = issues')
   \<and> (severityThreshold (config lo) = Some t1 \<and> severityThreshold (config hi) = Some t2
        \<and> severity_rank t1 \<le> severity_rank t2 \<longrightarrow>
        length (filterIssuesBySeverity hi issues') \<le> length (filterIssuesBySeverity lo issues'))
   \<and> length (filterIssuesBySeverity this issues') \<le> length issues'"
proof -
  have eq: "filterIssuesBySeverity a xs = filter (\<lambda>i. severity_rank u \<le> severity_rank (severity i)) xs"
    if "severityThreshold (config a) = Some u" for a u xs
    using that by (simp add: filterIssuesBySeverity_def indexOf_severityLevels)
  have 1: "severityThreshold (config this) = Some t \<longrightarrow>
      filterIssuesBySeverity this issues' =
        filter (\<lambda>i. severity_rank t \<le> severity_rank (severity i)) issues'"
    using eq by blast
  have 2: "severityThreshold (config this) = Some t \<longrightarrow>
        (i \<in> set (filterIssuesBySeverity this issues')
           \<longleftrightarrow> i \<in> set issues' \<and> severity_rank t \<le> severity_rank (severity i))"
    using eq by simp
  have 3: "severityThreshold (config this) = None \<longrightarrow>
        filterIssuesBySeverity this issues' = issues'"
    by (simp add: filterIssuesBySeverity_def)
  have 4: "severityThreshold (config lo) = Some t1 \<and> severityThreshold (config hi) = Some t2
        \<and> severity_rank t1 \<le> severity_rank t2 \<longrightarrow>
        length (filterIssuesBySeverity hi issues') \<le> length (filterIssuesBySeverity lo issues')"
  proof (intro impI, elim conjE)
    assume a: "severityThreshold (config lo) = Some t1" "severityThreshold (config hi) = Some t2"
      "severity_rank t1 \<le> severity_rank t2"
    show "length (filterIssuesBySeverity hi issues') \<le> length (filterIssuesBySeverity lo issues')"
      unfolding eq [OF a(1)] eq [OF a(2)]
      by (rule length_filter_mono) (use a(3) in simp)
  qed
  have 5: "length (filterIssuesBySeverity this issues') \<le> length issues'"
    by (cases "severityThreshold (config this)") (simp_all add: filterIssuesBySeverity_def)
  from 1 2 3 4 5 show ?thesis by blast
qed


theorem filterIssuesBySeverity_rank_witness:
  "severityThreshold (config (example_agent (Some Error))) = Some Error
   \<and> severityThreshold (config (example_agent (Some Warning))) = Some Warning
   \<and> severity_rank Warning \<le> severity_rank Error
   \<and> filterIssuesBySeverity (example_agent (Some Error))
         [example_issue Info, example_issue Critical, example_issue Warning, example_issue Error]
       = [example_issue Critical, example_issue Error]
   \<and> length (filterIssuesBySeverity (example_agent (Some Error))
         [example_issue Info, example_issue Critical, example_issue Warning, example_issue Error])
       \<le> length (filterIssuesBySeverity (example_agent (Some Warning))
         [example_issue Info, example_issue Critical, example_issue Warning, example_issue Error])"
proof -
  let ?xs = "[example_issue Info, example_issue Critical, example_issue Warning, example_issue Error]"
  have h1: "severityThreshold (config (example_agent (Some Error))) = Some Error"
    and h2: "severityThreshold (config (example_agent (Some Warning))) = Some Warning"
    and h3: "severity_rank Warning \<le> severity_rank Error"
    by (simp_all add: example_agent_def)
  note T = filterIssuesBySeverity_rank [of "example_agent (Some Error)" Error ?xs
      "example_issue Critical" "example_agent (Some Warning)" Warning "example_agent (Some Error)" Error]
  from T h1 have "filterIssuesBySeverity (example_agent (Some Error)) ?xs =
      filter (\<lambda>i. severity_rank Error \<le> severity_rank (severity i)) ?xs"
    by blast
  then have e: "filterIssuesBySeverity (example_agent (Some Error)) ?xs =
      [example_issue Critical, example_issue Error]"
    by (simp add: example_issue_def)
  from T h1 h2 h3 have l: "length (filterIssuesBySeverity (example_agent (Some Error)) ?xs)
      \<le> length (filterIssuesBySeverity (example_agent (Some Warning)) ?xs)"
    by blast
  from h1 h2 h3 e l show ?thesis by blast
qed

section \<open>Configuration\<close>

text \<open>
  Claim C5. When the user supplies exclude patterns, the resolved list is the eight
  baseline patterns followed by the user's patterns: every baseline pattern and every
  user pattern is in it.
\<close>

theorem buildConfig_excludePatterns_additive:
  "user_excludePatterns userConfig = Given userPatterns \<Longrightarrow>
     excludePatterns (buildConfig p userConfig) =
       Some ([''node_modules/**'', ''dist/**'', ''build/**'', ''*.min.js'', ''*.bundle.js'',
              ''coverage/**'', ''.git/**'', ''*.log''] @ userPatterns)
     \<and> (\<forall>x \<in> set [''node_modules/**'', ''dist/**'', ''build/**'', ''*.min.js'', ''*.bundle.js'',
              ''coverage/**'', ''.git/**'', ''*.log''] \<union> set userPatterns.
           \<exists>ps. excludePatterns (buildConfig p userConfig) = Some ps \<and> x \<in> set ps)"
proof -
  assume u: "user_excludePatterns userConfig = Given userPatterns"
  have 1: "excludePatterns (buildConfig p userConfig) = Some (DEFAULT_excludePatterns @ userPatterns)"
    using u by (cases "user_rules userConfig") (simp_all add: buildConfig_def Let_def)
  then have 2: "excludePatterns (buildConfig p userConfig) =
       Some ([''node_modules/**'', ''dist/**'', ''build/**'', ''*.min.js'', ''*.bundle.js'',
              ''coverage/**'', ''.git/**'', ''*.log''] @ userPatterns)"
    by (simp add: DEFAULT_excludePatterns_def)
  show ?thesis
    unfolding 2 by auto
qed

theorem buildConfig_excludePatterns_additive_witness:
  "user_excludePatterns (example_userConfig\<lparr>user_excludePatterns := Given [''*.generated.ts'']\<rparr>)
     = Given [''*.generated.ts'']
   \<and> excludePatterns (buildConfig example_process
        (example_userConfig\<lparr>user_excludePatterns := Given [''*.generated.ts'']\<rparr>)) =
       Some [''node_modules/**'', ''dist/**'', ''build/**'', ''*.min.js'', ''*.bundle.js'',
             ''coverage/**'', ''.git/**'', ''*.log'', ''*.generated.ts'']"
  using buildConfig_excludePatterns_additive
    [of "example_userConfig\<lparr>user_excludePatterns := Given [''*.generated.ts'']\<rparr>"
        "[''*.generated.ts'']" example_process]
  by (simp add: example_userConfig_def)

text \<open>
  Claim C4, evaluated at zero. With \<open>maxFiles\<close> and \<open>maxBudgetUsd\<close> both zero and the API
  key set, the resolved configuration holds the two zeros, \<open>validateConfig\<close> returns without
  an exception, and the constructor returns an agent: a zero is falsy, so neither
  comparison with zero is evaluated.
\<close>

theorem validateConfig_accepts_zero:
  "maxFiles (buildConfig example_process
       (example_userConfig\<lparr>user_maxFiles := Given (Fin 0), user_maxBudgetUsd := Given (Fin 0)\<rparr>))
     = Some (Fin 0)
   \<and> maxBudgetUsd (buildConfig example_process
       (example_userConfig\<lparr>user_maxFiles := Given (Fin 0), user_maxBudgetUsd := Given (Fin 0)\<rparr>))
     = Some (Fin 0)
   \<and> validateConfig example_process (buildConfig example_process
       (example_userConfig\<lparr>user_maxFiles := Given (Fin 0), user_maxBudgetUsd := Given (Fin 0)\<rparr>))
     = Inr ()
   \<and> new_CodeReviewAgent example_process
       (example_userConfig\<lparr>user_maxFiles := Given (Fin 0), user_maxBudgetUsd := Given (Fin 0)\<rparr>)
     = Inr \<lparr>config = buildConfig example_process
              (example_userConfig\<lparr>user_maxFiles := Given (Fin 0), user_maxBudgetUsd := Given (Fin 0)\<rparr>),
            sessionId = None\<rparr>"
  by (simp add: new_CodeReviewAgent_def validateConfig_def buildConfig_def DEFAULT_CONFIG_def
      example_process_def example_userConfig_def ebind_def Let_def)

text \<open>A negative finite bound is rejected, with the message of the source for \<open>maxFiles\<close>.\<close>

lemma validateConfig_rejects_negative:
  "(maxFiles c = Some (Fin r) \<and> r < 0 \<longrightarrow>
      validateConfig p c = Inl (JsError ''maxFiles must be greater than 0''))
   \<and> (maxBudgetUsd c = Some (Fin r) \<and> r < 0 \<longrightarrow> (\<exists>e. validateConfig p c = Inl e))"
  by (auto simp: validateConfig_def)

lemma map_of_map_set: "map_of (map_set m k v) = (map_of m)(k \<mapsto> v)"
  by (induction m) (auto simp: fun_upd_twist)

lemma keys_map_set: "fst ` set (map_set m k v) = insert k (fst ` set m)"
proof (induction m)
  case Nil
  show ?case by simp
next
  case (Cons a m)
  obtain a1 a2 where a: "a = (a1, a2)" by (cases a)
  show ?case
    using Cons by (cases "a1 = k") (force simp: a)+
qed

lemma distinct_map_set: "distinct (map fst m) \<Longrightarrow> distinct (map fst (map_set m k v))"
  by (induction m) (auto simp: keys_map_set)

lemma map_of_foldl_set:
  "map_of (foldl (\<lambda>m rule. map_set m (rule_id rule) rule) m rs)
     = map_of m ++ map_of (rev (map (\<lambda>r. (rule_id r, r)) rs))"
proof (induction rs arbitrary: m)
  case Nil
  then show ?case by simp
next
  case (Cons r rs)
  have "(map_of m)(rule_id r \<mapsto> r) ++ map_of (rev (map (\<lambda>r. (rule_id r, r)) rs))
      = map_of m ++ map_of (rev (map (\<lambda>r. (rule_id r, r)) (r # rs)))"
    by (rule ext) (simp add: map_add_def map_of_append split: option.split)
  note step = this
  have "foldl (\<lambda>m rule. map_set m (rule_id rule) rule) m (r # rs)
      = foldl (\<lambda>m rule. map_set m (rule_id rule) rule) (map_set m (rule_id r) r) rs"
    by simp
  then show ?case
    by (simp only: Cons.IH map_of_map_set step)
qed

lemma distinct_foldl_set:
  "distinct (map fst m) \<Longrightarrow>
     distinct (map fst (foldl (\<lambda>m rule. map_set m (rule_id rule) rule) m rs))"
  by (induction rs arbitrary: m) (simp_all add: distinct_map_set)

lemma new_Map_rules:
  "new_Map (map (\<lambda>rule. (rule_id rule, rule)) ds)
     = foldl (\<lambda>m rule. map_set m (rule_id rule) rule) [] ds"
  by (simp add: new_Map_def foldl_map)

lemma rulesMap_final:
  "map_of (foldl (\<lambda>m rule. map_set m (rule_id rule) rule)
             (new_Map (map (\<lambda>rule. (rule_id rule, rule)) ds)) us) = spec_rules_map ds us"
  "distinct (map fst (foldl (\<lambda>m rule. map_set m (rule_id rule) rule)
             (new_Map (map (\<lambda>rule. (rule_id rule, rule)) ds)) us))"
  by (simp_all add: new_Map_rules map_of_foldl_set spec_rules_map_def distinct_foldl_set)

lemma set_mergeRules:
  "set (mergeRules ds us) = {r \<in> ran (spec_rules_map ds us). rule_enabled r}"
proof -
  let ?m = "foldl (\<lambda>m rule. map_set m (rule_id rule) rule)
             (new_Map (map (\<lambda>rule. (rule_id rule, rule)) ds)) us"
  have "ran (map_of ?m) = snd ` set ?m"
    by (rule ran_distinct) (rule rulesMap_final(2))
  then have "set (map_values ?m) = ran (spec_rules_map ds us)"
    by (simp add: map_values_def rulesMap_final(1))
  then show ?thesis
    by (auto simp: mergeRules_def Let_def)
qed

lemma spec_rules_map_id: "spec_rules_map ds us x = Some r \<Longrightarrow> rule_id r = x"
  by (auto simp: spec_rules_map_def dest!: map_of_SomeD)

lemma ids_mergeRules:
  "x \<in> rule_id ` set (mergeRules ds us) \<longleftrightarrow> (\<exists>r. spec_rules_map ds us x = Some r \<and> rule_enabled r)"
proof
  assume "x \<in> rule_id ` set (mergeRules ds us)"
  then obtain r where r: "r \<in> ran (spec_rules_map ds us)" "rule_enabled r" "rule_id r = x"
    by (auto simp: set_mergeRules)
  then obtain y where "spec_rules_map ds us y = Some r" by (auto simp: ran_def)
  with r spec_rules_map_id [of ds us y r] show "\<exists>r. spec_rules_map ds us x = Some r \<and> rule_enabled r"
    by auto
next
  assume "\<exists>r. spec_rules_map ds us x = Some r \<and> rule_enabled r"
  then obtain r where r: "spec_rules_map ds us x = Some r" "rule_enabled r" by blast
  then have "r \<in> set (mergeRules ds us)" by (auto simp: set_mergeRules ran_def)
  moreover have "rule_id r = x" using r(1) by (rule spec_rules_map_id)
  ultimately show "x \<in> rule_id ` set (mergeRules ds us)" by force
qed

lemma spec_rules_map_last:
  "rule_id r \<notin> rule_id ` set post \<Longrightarrow> spec_rules_map ds (pre @ r # post) (rule_id r) = Some r"
proof -
  assume a: "rule_id r \<notin> rule_id ` set post"
  have "map_of (rev (map (\<lambda>r. (rule_id r, r)) post)) (rule_id r) = None"
    using a by (simp add: map_of_eq_None_iff image_image)
  then have "map_of (rev (map (\<lambda>r. (rule_id r, r)) (pre @ r # post))) (rule_id r) = Some r"
    by (simp add: map_of_append map_add_def)
  then show ?thesis by (simp add: spec_rules_map_def map_add_def)
qed

text \<open>
  Claim C6, amended. The rules that \<open>mergeRules\<close> returns are the enabled values of the
  mapping keyed by rule id, seeded with the default rules and overridden by the user's
  rules; an id is among them exactly when the mapping holds an enabled rule for it. A
  user rule with \<open>enabled: false\<close> that no later user rule with the same id follows leaves
  its id absent. \<open>buildConfig\<close> resolves the rules this way whenever the user supplies a
  list of rules.
\<close>

theorem mergeRules_by_id:
  "set (mergeRules defaultRules userRules)
     = {r \<in> ran (spec_rules_map defaultRules userRules). rule_enabled r}
   \<and> (x \<in> rule_id ` set (mergeRules defaultRules userRules)
        \<longleftrightarrow> (\<exists>r. spec_rules_map defaultRules userRules x = Some r \<and> rule_enabled r))
   \<and> (userRules = pre @ u # post \<and> rule_id u \<notin> rule_id ` set post \<and> \<not> rule_enabled u
        \<longrightarrow> rule_id u \<notin> rule_id ` set (mergeRules defaultRules userRules))
   \<and> (user_rules userConfig = Given userRules
        \<longrightarrow> rules (buildConfig p userConfig) = Some (mergeRules DEFAULT_RULES userRules))"
proof -
  have 3: "userRules = pre @ u # post \<and> rule_id u \<notin> rule_id ` set post \<and> \<not> rule_enabled u
        \<longrightarrow> rule_id u \<notin> rule_id ` set (mergeRules defaultRules userRules)"
  proof (intro impI notI, elim conjE)
    assume a: "userRules = pre @ u # post" "rule_id u \<notin> rule_id ` set post" "\<not> rule_enabled u"
      and b: "rule_id u \<in> rule_id ` set (mergeRules defaultRules userRules)"
    from b obtain r where r: "spec_rules_map defaultRules userRules (rule_id u) = Some r"
      "rule_enabled r"
      unfolding ids_mergeRules by blast
    from spec_rules_map_last [OF a(2), of defaultRules pre] a(1) r(1) have "r = u" by simp
    with r(2) a(3) show False by simp
  qed
  have 4: "user_rules userConfig = Given userRules
        \<longrightarrow> rules (buildConfig p userConfig) = Some (mergeRules DEFAULT_RULES userRules)"
    by (cases "user_excludePatterns userConfig") (simp_all add: buildConfig_def Let_def)
  from set_mergeRules [of defaultRules userRules] ids_mergeRules [of x defaultRules userRules] 3 4
  show ?thesis by blast
qed

theorem mergeRules_by_id_witness:
  "rule_id (example_rule ''security-xss'' False) \<in> rule_id ` set DEFAULT_RULES
   \<and> \<not> rule_enabled (example_rule ''security-xss'' False)
   \<and> rule_id (example_rule ''security-xss'' False)
        \<notin> rule_id ` set (mergeRules DEFAULT_RULES [example_rule ''security-xss'' False])"
proof -
  have a: "[example_rule ''security-xss'' False] = [] @ example_rule ''security-xss'' False # []"
    "rule_id (example_rule ''security-xss'' False) \<notin> rule_id ` set []"
    "\<not> rule_enabled (example_rule ''security-xss'' False)"
    by (simp_all add: example_rule_def)
  have b: "rule_id (example_rule ''security-xss'' False) \<in> rule_id ` set DEFAULT_RULES"
    by (simp add: example_rule_def DEFAULT_RULES_def)
  from mergeRules_by_id [of DEFAULT_RULES "[example_rule ''security-xss'' False]" _ "[]"
      "example_rule ''security-xss'' False" "[]"] a b
  show ?thesis by blast
qed

text \<open>
  Claim C6 as stated fails when the user's list holds the same id twice: a disabled rule
  with the id of a default rule, followed by an enabled rule with the same id, leaves the
  id among the resolved rules, since the later entry replaces the earlier one.
\<close>

theorem mergeRules_disabled_then_enabled:
  "example_rule ''security-xss'' False
      \<in> set [example_rule ''security-xss'' False, example_rule ''security-xss'' True]
   \<and> \<not> rule_enabled (example_rule ''security-xss'' False)
   \<and> rule_id (example_rule ''security-xss'' False) \<in> rule_id ` set DEFAULT_RULES
   \<and> rule_id (example_rule ''security-xss'' False)
        \<in> rule_id ` set (mergeRules DEFAULT_RULES
             [example_rule ''security-xss'' False, example_rule ''security-xss'' True])"
  by (simp add: example_rule_def DEFAULT_RULES_def mergeRules_def new_Map_def map_values_def)

section \<open>Result normalization\<close>








lemma parseResults_Inr: "\<exists>r. parseResults P t = Inr r"
  by (cases "parseResults_try P t")
     (auto simp: parseResults_def try_catch_def ebind_def logger_warn_def split: option.splits)






lemma jsonMatch_Some:
  "jsonMatch t = Some m \<Longrightarrow>
     \<exists>pre mid post. t = pre @ m @ post \<and> m = CHR ''{'' # mid @ [CHR ''}'']
       \<and> CHR ''{'' \<notin> set pre \<and> CHR ''}'' \<notin> set post"
proof -
  assume a: "jsonMatch t = Some m"
  let ?pre = "takeWhile (\<lambda>c. c \<noteq> CHR ''{'') t"
  let ?fb = "dropWhile (\<lambda>c. c \<noteq> CHR ''{'') t"
  let ?post = "rev (takeWhile (\<lambda>c. c \<noteq> CHR ''}'') (rev ?fb))"
  let ?d = "dropWhile (\<lambda>c. c \<noteq> CHR ''}'') (rev ?fb)"
  from a have m: "m = rev ?d" "?d \<noteq> []"
    by (auto simp: jsonMatch_def Let_def split: if_splits)
  have fb: "?fb = m @ ?post"
    unfolding m(1) by (metis rev_append rev_rev_ident takeWhile_dropWhile_id)
  have t: "t = ?pre @ m @ ?post" using fb by (metis takeWhile_dropWhile_id)
  have pre: "CHR ''{'' \<notin> set ?pre" by (auto dest: set_takeWhileD)
  have post: "CHR ''}'' \<notin> set ?post" by (auto dest: set_takeWhileD)
  have "hd ?d = CHR ''}''" using m(2) hd_dropWhile [of "\<lambda>c. c \<noteq> CHR ''}''" "rev ?fb"] by auto
  then have last: "last m = CHR ''}''" using m by (simp add: last_rev)
  have mne: "m \<noteq> []" using m by simp
  then have "?fb \<noteq> []" using fb by (metis Nil_is_append_conv)
  then have "hd ?fb = CHR ''{''" using hd_dropWhile [of "\<lambda>c. c \<noteq> CHR ''{''" t] by blast
  then have hd: "hd m = CHR ''{''" using fb mne by (metis hd_append2)
  from mne obtain c cs where cs: "m = c # cs" by (cases m) auto
  with hd have c: "c = CHR ''{''" by simp
  have "cs \<noteq> []" using last cs c by auto
  then obtain mid z where z: "cs = mid @ [z]" by (metis rev_exhaust)
  with last cs have "z = CHR ''}''" by simp
  with cs c z have "m = CHR ''{'' # mid @ [CHR ''}'']" by simp
  with t pre post show ?thesis by blast
qed

lemma jsonMatch_None_iff:
  "jsonMatch t = None \<longleftrightarrow> \<not> (\<exists>a b c. t = a @ CHR ''{'' # b @ CHR ''}'' # c)"
proof
  assume n: "jsonMatch t = None"
  show "\<not> (\<exists>a b c. t = a @ CHR ''{'' # b @ CHR ''}'' # c)"
  proof
    assume "\<exists>a b c. t = a @ CHR ''{'' # b @ CHR ''}'' # c"
    then obtain a b c where t: "t = a @ CHR ''{'' # b @ CHR ''}'' # c" by blast
    have "CHR ''}'' \<in> set (dropWhile (\<lambda>c. c \<noteq> CHR ''{'') t)"
      unfolding t by (cases "CHR ''{'' \<in> set a") (auto simp: dropWhile_append)
    then have "dropWhile (\<lambda>c. c \<noteq> CHR ''}'') (rev (dropWhile (\<lambda>c. c \<noteq> CHR ''{'') t)) \<noteq> []"
      by (simp add: dropWhile_eq_Nil_conv)
    with n show False by (auto simp: jsonMatch_def Let_def split: if_splits)
  qed
next
  assume h: "\<not> (\<exists>a b c. t = a @ CHR ''{'' # b @ CHR ''}'' # c)"
  show "jsonMatch t = None"
  proof (cases "jsonMatch t")
    case None
    then show ?thesis .
  next
    case (Some m)
    from jsonMatch_Some [OF this] obtain pre mid post
      where "t = pre @ m @ post" "m = CHR ''{'' # mid @ [CHR ''}'']" by blast
    then have "t = pre @ CHR ''{'' # mid @ CHR ''}'' # post" by simp
    with h show ?thesis by blast
  qed
qed

text \<open>
  Claim C8. \<open>parseResults\<close> returns for every text and every behaviour of the JSON parser.
  When the text has no \<open>{\<close> followed by a \<open>}\<close> (so there is no span from the first \<open>{\<close>
  to the last \<open>}\<close>), when the parser rejects the span, or when anything else in the \<open>try\<close>
  block throws, it returns the empty result: no issues, no reviewed files, and a status
  of \<open>success\<close>. The span, when there is one, starts at the first \<open>{\<close> of the text and
  ends at its last \<open>}\<close>.
\<close>

theorem parseResults_never_raises:
  "(\<exists>r. parseResults JSON_parse resultText = Inr r)
   \<and> (jsonMatch resultText = None \<longrightarrow> parseResults JSON_parse resultText = Inr emptyResults)
   \<and> (jsonMatch resultText = Some m \<and> JSON_parse m = None
        \<longrightarrow> parseResults JSON_parse resultText = Inr emptyResults)
   \<and> (parseResults_try JSON_parse resultText = Inl e
        \<longrightarrow> parseResults JSON_parse resultText = Inr emptyResults)
   \<and> (jsonMatch resultText = None
        \<longleftrightarrow> \<not> (\<exists>a b c. resultText = a @ CHR ''{'' # b @ CHR ''}'' # c))
   \<and> (jsonMatch resultText = Some m \<longrightarrow>
        (\<exists>pre mid post. resultText = pre @ m @ post \<and> m = CHR ''{'' # mid @ [CHR ''}'']
           \<and> CHR ''{'' \<notin> set pre \<and> CHR ''}'' \<notin> set post))
   \<and> (CHR ''{'' \<notin> set resultText \<or> CHR ''}'' \<notin> set resultText
        \<longrightarrow> parseResults JSON_parse resultText = Inr emptyResults)
   \<and> parsed_issues emptyResults = [] \<and> parsed_filesReviewed emptyResults = JArr []
   \<and> determineStatus (parsed_issues emptyResults) = Success"
proof -
  have 2: "parseResults JSON_parse resultText = Inr emptyResults" if "jsonMatch resultText = None"
    using that
    by (simp add: parseResults_def parseResults_try_def try_catch_def ebind_def)
  have 3: "jsonMatch resultText = Some m \<and> JSON_parse m = None
        \<longrightarrow> parseResults JSON_parse resultText = Inr emptyResults"
    by (simp add: parseResults_def parseResults_try_def try_catch_def ebind_def logger_warn_def)
  have 4: "parseResults_try JSON_parse resultText = Inl e
        \<longrightarrow> parseResults JSON_parse resultText = Inr emptyResults"
    by (simp add: parseResults_def try_catch_def ebind_def logger_warn_def)
  have 7: "CHR ''{'' \<notin> set resultText \<or> CHR ''}'' \<notin> set resultText
        \<longrightarrow> parseResults JSON_parse resultText = Inr emptyResults"
  proof
    assume "CHR ''{'' \<notin> set resultText \<or> CHR ''}'' \<notin> set resultText"
    then have "\<not> (\<exists>a b c. resultText = a @ CHR ''{'' # b @ CHR ''}'' # c)" by auto
    then have "jsonMatch resultText = None" by (simp add: jsonMatch_None_iff)
    then show "parseResults JSON_parse resultText = Inr emptyResults" by (rule 2)
  qed
  have 8: "parsed_issues emptyResults = []" "parsed_filesReviewed emptyResults = JArr []"
    "determineStatus (parsed_issues emptyResults) = Success"
    by (simp_all add: emptyResults_def determineStatus_def)
  from parseResults_Inr [of JSON_parse resultText] 2 3 4 jsonMatch_None_iff [of resultText]
    jsonMatch_Some [of resultText m] 7 8
  show ?thesis by blast
qed

theorem parseResults_never_raises_witness:
  "jsonMatch ''The review found nothing to report.'' = None
   \<and> parseResults (\<lambda>s. None) ''The review found nothing to report.'' = Inr emptyResults
   \<and> jsonMatch ''Result: {not json} end'' = Some ''{not json}''
   \<and> parseResults (\<lambda>s. None) ''Result: {not json} end'' = Inr emptyResults"
proof -
  have a: "jsonMatch ''The review found nothing to report.'' = None"
    "jsonMatch ''Result: {not json} end'' = Some ''{not json}''"
    by (simp_all add: jsonMatch_def)
  from parseResults_never_raises [of "\<lambda>s. None" "''The review found nothing to report.''"]
    parseResults_never_raises [of "\<lambda>s. None" "''Result: {not json} end''" "''{not json}''"] a
  show ?thesis by blast
qed

section \<open>The review result\<close>











section \<open>The pull-request context in the prompt\<close>

lemma buildPrompt_diff_append: "buildPrompt_diff (p @ q) d = p @ buildPrompt_diff q d"
  by (simp add: buildPrompt_diff_def Let_def split: option.splits)

lemma foldl_buildPrompt_diff: "foldl buildPrompt_diff (p @ q) ds = p @ foldl buildPrompt_diff q ds"
  by (induction ds arbitrary: q) (simp_all add: buildPrompt_diff_append)

lemma foldl_buildPrompt_diff_Nil: "foldl buildPrompt_diff p ds = p @ foldl buildPrompt_diff [] ds"
  using foldl_buildPrompt_diff [of p "[]" ds] by simp

lemma step_field:
  "(case v of None \<Rightarrow> p | Some t \<Rightarrow> if t = [] then p else p @ label @ t @ nl)
     = p @ field_line label v"
  by (simp add: field_line_def split: option.splits)

lemma step_number:
  "(case v of None \<Rightarrow> p
    | Some n \<Rightarrow> if pr_number_truthy n then p @ label @ pr_number_toString n @ nl else p)
     = p @ number_line label v"
  by (simp add: number_line_def split: option.splits)

lemma step_branch:
  "(case (b, bb) of
      (Some x, Some y) \<Rightarrow> if x \<noteq> [] \<and> y \<noteq> [] then p @ l @ x @ s1 @ ar @ s2 @ y @ nl else p
    | _ \<Rightarrow> p)
   = p @ (case (b, bb) of
            (Some x, Some y) \<Rightarrow> if x \<noteq> [] \<and> y \<noteq> [] then l @ x @ s1 @ ar @ s2 @ y @ nl else []
          | _ \<Rightarrow> [])"
  by (simp split: option.splits)

lemma step_changed:
  "(case cf of None \<Rightarrow> p | Some fs \<Rightarrow> p @ f fs) = p @ (case cf of None \<Rightarrow> [] | Some fs \<Rightarrow> f fs)"
  by (simp split: option.splits)

lemma step_diffs:
  "(case fd of
      None \<Rightarrow> p @ c
    | Some ds \<Rightarrow>
        if length ds > 0
        then (if length ds > 15 then foldl buildPrompt_diff (p @ h ds) (take 15 ds) @ m ds
              else foldl buildPrompt_diff (p @ h ds) (take 15 ds))
        else p @ c)
   = p @ (case fd of
            None \<Rightarrow> c
          | Some ds \<Rightarrow>
              if length ds > 0
              then h ds @ foldl buildPrompt_diff [] (take 15 ds)
                     @ (if length ds > 15 then m ds else [])
              else c)"
  by (subst (1 2) foldl_buildPrompt_diff_Nil) (simp split: option.splits)

lemma buildPrompt_prContext_lines:
  "\<exists>rest. \<forall>t d n a b bb.
     buildPrompt_prContext prompt
       (pr\<lparr>title := t, description := d, number := n, author := a, branch := b, baseBranch := bb\<rparr>)
     = prompt @ nl @ nl @ ''## Pull Request Context'' @ nl
         @ field_line ''**Title**: '' t
         @ field_line ''**Description**: '' d
         @ number_line ''**PR #**: '' n
         @ field_line ''**Author**: '' a
         @ (case (b, bb) of
              (Some x, Some y) \<Rightarrow>
                if x \<noteq> [] \<and> y \<noteq> [] then ''**Branch**: '' @ x @ '' '' @ arrow @ '' '' @ y @ nl
                else []
            | _ \<Rightarrow> [])
         @ rest"
proof -
  define changes where "changes =
    (case fileDiffs pr of
       None \<Rightarrow> (case changedFiles pr of None \<Rightarrow> []
                 | Some fs \<Rightarrow> nl @ ''**Changed Files**: '' @ join '', '' fs @ nl)
     | Some ds \<Rightarrow>
         if length ds > 0
         then (nl @ ''**Changes Made** ('' @ digits (length ds) @ '' files):'' @ nl)
                @ foldl buildPrompt_diff [] (take 15 ds)
                @ (if length ds > 15
                   then nl @ ''... and '' @ digits (length ds - 15)
                          @ '' more files (use Glob/Read to explore)'' @ nl
                   else [])
         else (case changedFiles pr of None \<Rightarrow> []
               | Some fs \<Rightarrow> nl @ ''**Changed Files**: '' @ join '', '' fs @ nl))"
  define task where "task =
    nl @ ''**Your Task**: Review the diffs above. Understand what this PR is trying to achieve, verify it works correctly, and check for:'' @ nl
    @ ''- Security vulnerabilities in the changed lines'' @ nl
    @ ''- Bugs or logic errors in the modifications'' @ nl
    @ ''- Impact on files that import/use the changed code'' @ nl
    @ ''- Missing tests for the new/changed functionality'' @ nl
    @ ''- Edge cases not handled by the changes'' @ nl @ nl"
  have "buildPrompt_prContext prompt
       (pr\<lparr>title := t, description := d, number := n, author := a, branch := b, baseBranch := bb\<rparr>)
     = prompt @ nl @ nl @ ''## Pull Request Context'' @ nl
         @ field_line ''**Title**: '' t
         @ field_line ''**Description**: '' d
         @ number_line ''**PR #**: '' n
         @ field_line ''**Author**: '' a
         @ (case (b, bb) of
              (Some x, Some y) \<Rightarrow>
                if x \<noteq> [] \<and> y \<noteq> [] then ''**Branch**: '' @ x @ '' '' @ arrow @ '' '' @ y @ nl
                else []
            | _ \<Rightarrow> [])
         @ (changes @ task)" for t d n a b bb
  proof -
    let ?pr = "pr\<lparr>title := t, description := d, number := n, author := a, branch := b,
      baseBranch := bb\<rparr>"
    have sel: "title ?pr = t" "description ?pr = d" "number ?pr = n" "author ?pr = a"
      "branch ?pr = b" "baseBranch ?pr = bb" "changedFiles ?pr = changedFiles pr"
      "fileDiffs ?pr = fileDiffs pr"
      by simp_all
    show ?thesis
      unfolding buildPrompt_prContext_def changes_def task_def
      apply (simp only: step_field step_number step_branch step_changed)
      apply (simp only: Let_def)
      apply (simp only: step_diffs)
      apply (simp only: append_assoc sel)
      done
  qed
  then show ?thesis by blast
qed


lemma prContextSection_lines:
  "\<exists>rest. \<forall>t d n a b bb.
     prContextSection
       (Some (pr\<lparr>title := t, description := d, number := n, author := a, branch := b,
                baseBranch := bb\<rparr>))
     = nl @ ''## Pull Request Context'' @ nl @ nl
         @ field_line ''**PR Title**: '' t @ nl
         @ number_line ''**PR Number**: #'' n @ nl
         @ field_line (''**PR Description**:'' @ nl) d @ nl
         @ field_line ''**Author**: '' a @ nl
         @ (case b of
              None \<Rightarrow> []
            | Some x \<Rightarrow>
                if x = [] then []
                else ''**Branch**: '' @ x @ '' '' @ loader_arrow @ '' ''
                       @ (case bb of None \<Rightarrow> ''main'' | Some y \<Rightarrow> if y = [] then ''main'' else y)
                       @ nl)
         @ nl @ rest"
proof -
  have f: "(case v of None \<Rightarrow> [] | Some t \<Rightarrow> if t = [] then [] else label @ t @ nl)
      = field_line label v" for label v
    by (simp add: field_line_def)
  have g: "(case v of None \<Rightarrow> []
      | Some n \<Rightarrow> if pr_number_truthy n then label @ pr_number_toString n @ nl else [])
      = number_line label v" for label v
    by (simp add: number_line_def)
  have fd: "(case v of None \<Rightarrow> []
      | Some t \<Rightarrow> if t = [] then [] else ''**PR Description**:'' @ nl @ t @ nl)
      = field_line (''**PR Description**:'' @ nl) v" for v
    by (simp only: field_line_def append_assoc)
  define rest where "rest =
    (case changedFiles pr of None \<Rightarrow> []
     | Some fs \<Rightarrow>
         if length fs > 0
         then ''**Changed Files**:'' @ nl @ join nl (map (\<lambda>f. ''- '' @ f) fs) @ nl
         else [])
    @ nl @ nl
    @ ''**Important**: Use this context to understand the developer's intent and ensure your review addresses what they're trying to accomplish. Verify that the changes achieve the stated goals and handle all edge cases related to the PR's purpose.''
    @ nl"
  have "prContextSection
       (Some (pr\<lparr>title := t, description := d, number := n, author := a, branch := b,
                baseBranch := bb\<rparr>))
     = nl @ ''## Pull Request Context'' @ nl @ nl
         @ field_line ''**PR Title**: '' t @ nl
         @ number_line ''**PR Number**: #'' n @ nl
         @ field_line (''**PR Description**:'' @ nl) d @ nl
         @ field_line ''**Author**: '' a @ nl
         @ (case b of
              None \<Rightarrow> []
            | Some x \<Rightarrow>
                if x = [] then []
                else ''**Branch**: '' @ x @ '' '' @ loader_arrow @ '' ''
                       @ (case bb of None \<Rightarrow> ''main'' | Some y \<Rightarrow> if y = [] then ''main'' else y)
                       @ nl)
         @ nl @ rest" for t d n a b bb
  proof -
    let ?pr = "pr\<lparr>title := t, description := d, number := n, author := a, branch := b,
      baseBranch := bb\<rparr>"
    have sel: "title ?pr = t" "description ?pr = d" "number ?pr = n" "author ?pr = a"
      "branch ?pr = b" "baseBranch ?pr = bb" "changedFiles ?pr = changedFiles pr"
      by simp_all
    show ?thesis
      unfolding prContextSection_def rest_def
      by (simp only: option.case fd f g sel append_assoc)
  qed
  then show ?thesis by blast
qed

lemma buildPrompt_section:
  "(prContext (config this) = Some pr \<longrightarrow>
      (\<exists>rest. buildPrompt Number_toString this target
         = buildPrompt_prContext ''You are an expert code reviewer. '' pr @ rest))
   \<and> (prContext (config this) = None \<longrightarrow>
      (\<exists>rest. buildPrompt Number_toString this target
         = ''You are an expert code reviewer. '' @ reviewTask_head @ rest))"
  by (simp add: buildPrompt_def Let_def)

lemma loadReviewPrompt_section:
  "loadReviewPrompt promptTemplate (Some pr) = prContextSection (Some pr) @ nl @ promptTemplate
   \<and> loadReviewPrompt promptTemplate None = promptTemplate"
  by (simp add: loadReviewPrompt_def prContextSection_def nl_def)

text \<open>
  Claim C9, amended. In \<open>buildPrompt\<close> the pull-request section is the heading followed by
  one line for each of title, description, number and author that is present, and by the
  branch line when both \<open>branch\<close> and \<open>baseBranch\<close> are present; an absent field
  contributes no text, and what follows does not depend on these fields. In
  \<open>loadReviewPrompt\<close> an absent title, number, description, author or branch leaves its
  place in the template empty, but when \<open>branch\<close> is present an absent \<open>baseBranch\<close> is
  printed as \<open>main\<close>. With a pull-request context, the prompt of \<open>buildPrompt\<close> starts
  with the opening sentence and this section, and the prompt of \<open>loadReviewPrompt\<close> with
  its section; without one, neither prompt has such a section.
\<close>

theorem prContext_absent_fields:
  "(\<exists>rest. \<forall>t d n a b bb.
     buildPrompt_prContext prompt
       (pr\<lparr>title := t, description := d, number := n, author := a, branch := b, baseBranch := bb\<rparr>)
     = prompt @ nl @ nl @ ''## Pull Request Context'' @ nl
         @ field_line ''**Title**: '' t
         @ field_line ''**Description**: '' d
         @ number_line ''**PR #**: '' n
         @ field_line ''**Author**: '' a
         @ (case (b, bb) of
              (Some x, Some y) \<Rightarrow>
                if x \<noteq> [] \<and> y \<noteq> [] then ''**Branch**: '' @ x @ '' '' @ arrow @ '' '' @ y @ nl
                else []
            | _ \<Rightarrow> [])
         @ rest)
   \<and> (\<exists>rest. \<forall>t d n a b bb.
     prContextSection
       (Some (pr\<lparr>title := t, description := d, number := n, author := a, branch := b,
                baseBranch := bb\<rparr>))
     = nl @ ''## Pull Request Context'' @ nl @ nl
         @ field_line ''**PR Title**: '' t @ nl
         @ number_line ''**PR Number**: #'' n @ nl
         @ field_line (''**PR Description**:'' @ nl) d @ nl
         @ field_line ''**Author**: '' a @ nl
         @ (case b of
              None \<Rightarrow> []
            | Some x \<Rightarrow>
                if x = [] then []
                else ''**Branch**: '' @ x @ '' '' @ loader_arrow @ '' ''
                       @ (case bb of None \<Rightarrow> ''main'' | Some y \<Rightarrow> if y = [] then ''main'' else y)
                       @ nl)
         @ nl @ rest)
   \<and> field_line label None = [] \<and> number_line label None = []
   \<and> (prContext (config this) = Some pr \<longrightarrow>
      (\<exists>rest. buildPrompt Number_toString this target
         = buildPrompt_prContext ''You are an expert code reviewer. '' pr @ rest))
   \<and> (prContext (config this) = None \<longrightarrow>
      (\<exists>rest. buildPrompt Number_toString this target
         = ''You are an expert code reviewer. '' @ reviewTask_head @ rest))
   \<and> loadReviewPrompt promptTemplate (Some pr) = prContextSection (Some pr) @ nl @ promptTemplate
   \<and> loadReviewPrompt promptTemplate None = promptTemplate"
proof -
  have "field_line label None = [] \<and> number_line label None = []"
    by (simp add: field_line_def number_line_def)
  with buildPrompt_prContext_lines [of prompt pr] prContextSection_lines [of pr]
    buildPrompt_section [of this pr Number_toString target]
    loadReviewPrompt_section [of promptTemplate pr]
  show ?thesis by blast
qed

theorem prContext_absent_fields_witness:
  "\<exists>rest.
     buildPrompt_prContext []
       (example_prContext\<lparr>title := None, description := None, number := None, author := None,
          branch := Some ''feat'', baseBranch := None\<rparr>)
     = nl @ nl @ ''## Pull Request Context'' @ nl @ rest
   \<and> buildPrompt_prContext []
       (example_prContext\<lparr>title := Some ''Fix'', description := None, number := None,
          author := None, branch := Some ''feat'', baseBranch := Some ''main''\<rparr>)
     = nl @ nl @ ''## Pull Request Context'' @ nl @ ''**Title**: Fix'' @ nl
         @ ''**Branch**: feat '' @ arrow @ '' main'' @ nl @ rest
   \<and> prContext (config ((example_agent None)
         \<lparr>config := (config (example_agent None))\<lparr>prContext := Some example_prContext\<rparr>\<rparr>))
       = Some example_prContext
   \<and> (\<exists>tail. buildPrompt (\<lambda>n. ''50'') ((example_agent None)
         \<lparr>config := (config (example_agent None))\<lparr>prContext := Some example_prContext\<rparr>\<rparr>) ''src''
       = buildPrompt_prContext ''You are an expert code reviewer. '' example_prContext @ tail)"
proof -
  let ?a = "(example_agent None)
         \<lparr>config := (config (example_agent None))\<lparr>prContext := Some example_prContext\<rparr>\<rparr>"
  have c: "prContext (config ?a) = Some example_prContext" by simp
  from prContext_absent_fields [where this = ?a and pr = example_prContext
      and Number_toString = "\<lambda>n. ''50''" and target = "''src''"] c
  have b: "\<exists>tail. buildPrompt (\<lambda>n. ''50'') ?a ''src''
       = buildPrompt_prContext ''You are an expert code reviewer. '' example_prContext @ tail"
    by blast
  from prContext_absent_fields [of "[]" example_prContext]
  obtain rest where r: "\<And>t d n a b bb.
     buildPrompt_prContext []
       (example_prContext\<lparr>title := t, description := d, number := n, author := a, branch := b,
          baseBranch := bb\<rparr>)
     = [] @ nl @ nl @ ''## Pull Request Context'' @ nl
         @ field_line ''**Title**: '' t
         @ field_line ''**Description**: '' d
         @ number_line ''**PR #**: '' n
         @ field_line ''**Author**: '' a
         @ (case (b, bb) of
              (Some x, Some y) \<Rightarrow>
                if x \<noteq> [] \<and> y \<noteq> [] then ''**Branch**: '' @ x @ '' '' @ arrow @ '' '' @ y @ nl
                else []
            | _ \<Rightarrow> [])
         @ rest"
    by blast
  have "buildPrompt_prContext []
       (example_prContext\<lparr>title := None, description := None, number := None, author := None,
          branch := Some ''feat'', baseBranch := None\<rparr>)
     = nl @ nl @ ''## Pull Request Context'' @ nl @ rest"
    by (simp add: r field_line_def number_line_def)
  moreover have "buildPrompt_prContext []
       (example_prContext\<lparr>title := Some ''Fix'', description := None, number := None,
          author := None, branch := Some ''feat'', baseBranch := Some ''main''\<rparr>)
     = nl @ nl @ ''## Pull Request Context'' @ nl @ ''**Title**: Fix'' @ nl
         @ ''**Branch**: feat '' @ arrow @ '' main'' @ nl @ rest"
    by (simp add: r field_line_def number_line_def)
  ultimately show ?thesis using c b by blast
qed

text \<open>
  Claim C9 as stated fails in \<open>loadReviewPrompt\<close>: with \<open>branch\<close> present and \<open>baseBranch\<close>
  absent, the section holds the default text \<open>main\<close>, and is the section of the same
  context with \<open>baseBranch\<close> set to \<open>main\<close>.
\<close>

theorem prContextSection_defaults_baseBranch:
  "baseBranch example_prContext = None
   \<and> prContextSection (Some example_prContext)
       = nl @ ''## Pull Request Context'' @ nl @ nl @ nl @ nl @ nl @ nl
           @ ''**Branch**: feat '' @ loader_arrow @ '' main'' @ nl @ nl @ nl @ nl
           @ ''**Important**: Use this context to understand the developer's intent and ensure your review addresses what they're trying to accomplish. Verify that the changes achieve the stated goals and handle all edge cases related to the PR's purpose.''
           @ nl
   \<and> prContextSection (Some example_prContext)
       = prContextSection (Some (example_prContext\<lparr>baseBranch := Some ''main''\<rparr>))"
  by (simp add: prContextSection_def example_prContext_def)

end
